theory Spec2Isabelle
  imports Main "HOL-Library.Word"
begin

unbundle bit_operations_syntax

section \<open>JavaScript strings\<close>

text \<open>
  A JavaScript string is a sequence of UTF-16 code units; \<open>===\<close> on strings, \<open>trim\<close>,
  \<open>replaceAll\<close> and regular expressions without the \<open>u\<close> flag all work on code units.
  \<open>js\<close> embeds an ASCII literal of the source.
\<close>

type_synonym jschar = "16 word"
type_synonym jsstring = "jschar list"

definition ch :: "char \<Rightarrow> jschar" where
  "ch c = of_char c"

definition js :: "string \<Rightarrow> jsstring" where
  "js s = map ch s"

text \<open>
  The code units that \<open>String.prototype.trim\<close> strips and that \<open>\s\<close> matches
  (ECMAScript WhiteSpace and LineTerminator): TAB, LF, VT, FF, CR, SP, NBSP, U+1680,
  U+2000 to U+200A, U+2028, U+2029, U+202F, U+205F, U+3000 and U+FEFF.
\<close>

definition is_ws :: "jschar \<Rightarrow> bool" where
  "is_ws c \<longleftrightarrow>
     c = 0x9 \<or> c = 0xA \<or> c = 0xB \<or> c = 0xC \<or> c = 0xD \<or> c = 0x20 \<or> c = 0xA0 \<or> c = 0x1680
     \<or> (0x2000 \<le> c \<and> c \<le> 0x200A)
     \<or> c = 0x2028 \<or> c = 0x2029 \<or> c = 0x202F \<or> c = 0x205F \<or> c = 0x3000 \<or> c = 0xFEFF"

definition trim :: "jsstring \<Rightarrow> jsstring" where
  "trim s = rev (dropWhile is_ws (rev (dropWhile is_ws s)))"

section \<open>Regular expressions\<close>

text \<open>
  The four patterns of \<open>validateForm\<close> use bracket expressions, a literal, concatenation
  and the quantifiers \<open>+\<close> and \<open>{n,}\<close>, all between \<open>^\<close> and \<open>$\<close>. \<open>regex_test r s\<close> is
  \<open>/^r$/.test(s)\<close>: it decides by derivatives whether the whole of \<open>s\<close> matches \<open>r\<close>.
\<close>

datatype cclass =
    CRange jschar jschar  \<comment> \<open>\<open>a-z\<close>\<close>
  | CChar jschar          \<comment> \<open>a single character\<close>
  | CSpace                \<comment> \<open>\<open>\s\<close>\<close>

fun in_cclass :: "jschar \<Rightarrow> cclass \<Rightarrow> bool" where
  "in_cclass c (CRange lo hi) = (lo \<le> c \<and> c \<le> hi)"
| "in_cclass c (CChar d) = (c = d)"
| "in_cclass c CSpace = is_ws c"

datatype regex =
    Nothing                 \<comment> \<open>matches no string\<close>
  | Empty                   \<comment> \<open>matches the empty string\<close>
  | Bracket "cclass list"    \<comment> \<open>\<open>[...]\<close>\<close>
  | NegBracket "cclass list" \<comment> \<open>\<open>[^...]\<close>\<close>
  | Lit jschar              \<comment> \<open>an escaped or plain character\<close>
  | Either regex regex      \<comment> \<open>\<open>r|s\<close>\<close>
  | Then regex regex        \<comment> \<open>\<open>rs\<close>\<close>
  | Many regex              \<comment> \<open>\<open>r*\<close>\<close>

definition OneOrMore :: "regex \<Rightarrow> regex" where  \<comment> \<open>\<open>r+\<close>\<close>
  "OneOrMore r = Then r (Many r)"

fun AtLeast :: "nat \<Rightarrow> regex \<Rightarrow> regex" where  \<comment> \<open>\<open>r{n,}\<close>\<close>
  "AtLeast 0 r = Many r"
| "AtLeast (Suc n) r = Then r (AtLeast n r)"

fun nullable :: "regex \<Rightarrow> bool" where
  "nullable Nothing = False"
| "nullable Empty = True"
| "nullable (Bracket cs) = False"
| "nullable (NegBracket cs) = False"
| "nullable (Lit d) = False"
| "nullable (Either r s) = (nullable r \<or> nullable s)"
| "nullable (Then r s) = (nullable r \<and> nullable s)"
| "nullable (Many r) = True"

fun deriv :: "jschar \<Rightarrow> regex \<Rightarrow> regex" where
  "deriv c Nothing = Nothing"
| "deriv c Empty = Nothing"
| "deriv c (Bracket cs) = (if list_ex (in_cclass c) cs then Empty else Nothing)"
| "deriv c (NegBracket cs) = (if list_ex (in_cclass c) cs then Nothing else Empty)"
| "deriv c (Lit d) = (if c = d then Empty else Nothing)"
| "deriv c (Either r s) = Either (deriv c r) (deriv c s)"
| "deriv c (Then r s) =
     (if nullable r then Either (Then (deriv c r) s) (deriv c s) else Then (deriv c r) s)"
| "deriv c (Many r) = Then (deriv c r) (Many r)"

fun derivs :: "regex \<Rightarrow> jsstring \<Rightarrow> regex" where
  "derivs r [] = r"
| "derivs r (c # cs) = derivs (deriv c r) cs"

definition regex_test :: "regex \<Rightarrow> jsstring \<Rightarrow> bool" where
  "regex_test r s = nullable (derivs r s)"

text \<open>The patterns of \<open>validateForm\<close>, in the order of the source.\<close>

definition name_re :: regex where  \<comment> \<open>\<open>/^[A-Za-z ]+$/\<close>\<close>
  "name_re = OneOrMore (Bracket [CRange (ch CHR ''A'') (ch CHR ''Z''),
                                 CRange (ch CHR ''a'') (ch CHR ''z''), CChar (ch CHR '' '')])"

definition id_re :: regex where  \<comment> \<open>\<open>/^[0-9]+$/\<close>\<close>
  "id_re = OneOrMore (Bracket [CRange (ch CHR ''0'') (ch CHR ''9'')])"

definition email_re :: regex where  \<comment> \<open>\<open>/^[^\s@]+@[^\s@]+\.[^\s@]+$/\<close>\<close>
  "email_re =
     Then (OneOrMore (NegBracket [CSpace, CChar (ch CHR ''@'')]))
    (Then (Lit (ch CHR ''@''))
    (Then (OneOrMore (NegBracket [CSpace, CChar (ch CHR ''@'')]))
    (Then (Lit (ch CHR ''.''))
          (OneOrMore (NegBracket [CSpace, CChar (ch CHR ''@'')])))))"

definition contact_re :: regex where  \<comment> \<open>\<open>/^[0-9]{10,}$/\<close>\<close>
  "contact_re = AtLeast 10 (Bracket [CRange (ch CHR ''0'') (ch CHR ''9'')])"

section \<open>JSON\<close>

text \<open>
  \<open>JSON.parse\<close> and \<open>JSON.stringify\<close> belong to the platform. They are modelled after
  ECMA-262 and ECMA-404: a tokenizer for the JSON lexical grammar, and a pushdown parser
  over the tokens. A number keeps its literal (its numeric value is a floating-point
  number, which no property below needs); an object keeps its members as written.
\<close>

datatype jsval =
    JNull
  | JBool bool
  | JNum jsstring
  | JStr jsstring
  | JArr "jsval list"
  | JObj "(jsstring \<times> jsval) list"

datatype token =
    TLBrace | TRBrace | TLBracket | TRBracket | TColon | TComma
  | TString jsstring | TNumber jsstring | TTrue | TFalse | TNull

definition dquote :: jschar where
  "dquote = ch (CHR 0x22)"

definition backslash :: jschar where
  "backslash = ch (CHR 0x5C)"

definition is_digit :: "jschar \<Rightarrow> bool" where
  "is_digit c \<longleftrightarrow> ch CHR ''0'' \<le> c \<and> c \<le> ch CHR ''9''"

definition is_json_ws :: "jschar \<Rightarrow> bool" where
  "is_json_ws c \<longleftrightarrow> c = 0x20 \<or> c = 0x9 \<or> c = 0xA \<or> c = 0xD"

definition hex_value :: "jschar \<Rightarrow> nat option" where
  "hex_value c =
     (if ch CHR ''0'' \<le> c \<and> c \<le> ch CHR ''9'' then Some (unat c - 48)
      else if ch CHR ''a'' \<le> c \<and> c \<le> ch CHR ''f'' then Some (unat c - 87)
      else if ch CHR ''A'' \<le> c \<and> c \<le> ch CHR ''F'' then Some (unat c - 55)
      else None)"

definition unescape :: "jschar \<Rightarrow> jschar option" where
  \<comment> \<open>the character after a backslash, \<open>u\<close> apart\<close>
  "unescape e =
     (if e = dquote then Some dquote
      else if e = backslash then Some backslash
      else if e = ch CHR ''/'' then Some (ch CHR ''/'')
      else if e = ch CHR ''b'' then Some 0x8
      else if e = ch CHR ''f'' then Some 0xC
      else if e = ch CHR ''n'' then Some 0xA
      else if e = ch CHR ''r'' then Some 0xD
      else if e = ch CHR ''t'' then Some 0x9
      else None)"

definition with_char :: "jschar \<Rightarrow> (jsstring \<times> jsstring) option \<Rightarrow> (jsstring \<times> jsstring) option" where
  "with_char c r = (case r of None \<Rightarrow> None | Some (s, rest) \<Rightarrow> Some (c # s, rest))"

text \<open>
  \<open>lex_string\<close> reads a string literal after its opening quote and returns the string's
  value and the text after the closing quote; \<open>None\<close> is a SyntaxError.
\<close>

fun lex_string :: "jsstring \<Rightarrow> (jsstring \<times> jsstring) option" where
  "lex_string [] = None"
| "lex_string (c # cs) =
     (if c = dquote then Some ([], cs)
      else if c = backslash then
        (case cs of
           [] \<Rightarrow> None
         | e # es \<Rightarrow>
             if e = ch CHR ''u'' then
               (case es of
                  h1 # h2 # h3 # h4 # rest \<Rightarrow>
                    (case (hex_value h1, hex_value h2, hex_value h3, hex_value h4) of
                       (Some a, Some b, Some c, Some d) \<Rightarrow>
                         with_char (of_nat (((a * 16 + b) * 16 + c) * 16 + d)) (lex_string rest)
                     | _ \<Rightarrow> None)
                | _ \<Rightarrow> None)
             else
               (case unescape e of
                  None \<Rightarrow> None
                | Some x \<Rightarrow> with_char x (lex_string es)))
      else if c < 0x20 then None
      else with_char c (lex_string cs))"

text \<open>
  \<open>lex_number\<close> reads a number literal
  \<open>-? (0 | [1-9][0-9]*) (. [0-9]+)? ([eE] [+-]? [0-9]+)?\<close> and returns it with the text
  after it.
\<close>

definition lex_sign :: "jsstring \<Rightarrow> jsstring" where
  "lex_sign s = (case s of c # cs \<Rightarrow> if c = ch CHR ''-'' then [c] else [] | [] \<Rightarrow> [])"

definition lex_int :: "jsstring \<Rightarrow> jsstring option" where
  "lex_int s =
     (case s of
        [] \<Rightarrow> None
      | c # cs \<Rightarrow>
          if c = ch CHR ''0'' then Some [c]
          else if is_digit c then Some (c # takeWhile is_digit cs)
          else None)"

definition lex_frac :: "jsstring \<Rightarrow> jsstring option" where
  "lex_frac s =
     (case s of
        [] \<Rightarrow> Some []
      | c # cs \<Rightarrow>
          if c = ch CHR ''.'' then
            (if takeWhile is_digit cs = [] then None else Some (c # takeWhile is_digit cs))
          else Some [])"

definition lex_exp :: "jsstring \<Rightarrow> jsstring option" where
  "lex_exp s =
     (case s of
        [] \<Rightarrow> Some []
      | c # cs \<Rightarrow>
          if c = ch CHR ''e'' \<or> c = ch CHR ''E'' then
            (let sg = (case cs of d # ds \<Rightarrow> if d = ch CHR ''+'' \<or> d = ch CHR ''-'' then [d] else []
                                  | [] \<Rightarrow> []);
                 ds = takeWhile is_digit (drop (length sg) cs)
             in if ds = [] then None else Some (c # sg @ ds))
          else Some [])"

definition lex_number :: "jsstring \<Rightarrow> (jsstring \<times> jsstring) option" where
  "lex_number s =
     (let sg = lex_sign s in
      case lex_int (drop (length sg) s) of
        None \<Rightarrow> None
      | Some i \<Rightarrow>
          (case lex_frac (drop (length (sg @ i)) s) of
             None \<Rightarrow> None
           | Some f \<Rightarrow>
               (case lex_exp (drop (length (sg @ i @ f)) s) of
                  None \<Rightarrow> None
                | Some e \<Rightarrow> Some (sg @ i @ f @ e, drop (length (sg @ i @ f @ e)) s))))"

definition with_token :: "token \<Rightarrow> token list option \<Rightarrow> token list option" where
  "with_token t r = (case r of None \<Rightarrow> None | Some ts \<Rightarrow> Some (t # ts))"

text \<open>Both lexers consume input, which is what the tokenizer's termination needs.\<close>

lemma lex_string_shorter: "lex_string s = Some (v, rest) \<Longrightarrow> length rest < Suc (length s)"
proof (induction s arbitrary: v rest rule: lex_string.induct)
  case 1
  then show ?case by simp
next
  case (2 c cs)
  then show ?case
    by (auto simp: with_char_def split: if_splits list.splits option.splits) fastforce+
qed

lemma lex_number_shorter: "lex_number (c # cs) = Some (l, rest) \<Longrightarrow> length rest < Suc (length cs)"
  by (auto simp: lex_number_def lex_int_def Let_def split: option.splits list.splits if_splits)

text \<open>\<open>tokenize\<close> splits a JSON text into its tokens; \<open>None\<close> is a SyntaxError.\<close>

function tokenize :: "jsstring \<Rightarrow> token list option" where
  "tokenize [] = Some []"
| "tokenize (c # cs) =
     (if is_json_ws c then tokenize cs
      else if c = ch CHR ''{'' then with_token TLBrace (tokenize cs)
      else if c = ch CHR ''}'' then with_token TRBrace (tokenize cs)
      else if c = ch CHR ''['' then with_token TLBracket (tokenize cs)
      else if c = ch CHR '']'' then with_token TRBracket (tokenize cs)
      else if c = ch CHR '':'' then with_token TColon (tokenize cs)
      else if c = ch CHR '','' then with_token TComma (tokenize cs)
      else if c = dquote then
        (case lex_string cs of
           None \<Rightarrow> None
         | Some (v, rest) \<Rightarrow> with_token (TString v) (tokenize rest))
      else if c = ch CHR ''-'' \<or> is_digit c then
        (case lex_number (c # cs) of
           None \<Rightarrow> None
         | Some (l, rest) \<Rightarrow> with_token (TNumber l) (tokenize rest))
      else if take 4 (c # cs) = js ''true'' then with_token TTrue (tokenize (drop 3 cs))
      else if take 5 (c # cs) = js ''false'' then with_token TFalse (tokenize (drop 4 cs))
      else if take 4 (c # cs) = js ''null'' then with_token TNull (tokenize (drop 3 cs))
      else None)"
  by pat_completeness auto
termination
  by (relation "measure length") (auto dest: lex_string_shorter lex_number_shorter)

text \<open>
  The parser reads the tokens from left to right, with a stack of the arrays and objects
  that are open. \<open>JSON_parse\<close> returns the value of a text that is one JSON value and
  nothing else, and \<open>None\<close> where \<open>JSON.parse\<close> throws a SyntaxError.
\<close>

datatype frame =
    FArr "jsval list"                          \<comment> \<open>an array and its elements so far\<close>
  | FObj "(jsstring \<times> jsval) list"             \<comment> \<open>an object and its members so far\<close>
  | FMember "(jsstring \<times> jsval) list" jsstring  \<comment> \<open>an object, and the key whose value is being read\<close>

datatype expect =
    Value          \<comment> \<open>a value starts here\<close>
  | ValueOrClose   \<comment> \<open>after \<open>[\<close>: a value or \<open>]\<close>\<close>
  | KeyOrClose     \<comment> \<open>after \<open>{\<close>: a key or \<open>}\<close>\<close>
  | Key            \<comment> \<open>after a comma in an object\<close>
  | Colon          \<comment> \<open>after a key\<close>
  | Next           \<comment> \<open>after a value in an array or object: a comma or the closing bracket\<close>
  | Done jsval     \<comment> \<open>the text's value is complete\<close>

type_synonym config = "expect \<times> frame list"

fun deliver :: "jsval \<Rightarrow> frame list \<Rightarrow> config option" where
  "deliver v [] = Some (Done v, [])"
| "deliver v (FArr es # stk) = Some (Next, FArr (es @ [v]) # stk)"
| "deliver v (FMember ms k # stk) = Some (Next, FObj (ms @ [(k, v)]) # stk)"
| "deliver v (FObj ms # stk) = None"

fun start_value :: "token \<Rightarrow> frame list \<Rightarrow> config option" where
  "start_value TNull stk = deliver JNull stk"
| "start_value TTrue stk = deliver (JBool True) stk"
| "start_value TFalse stk = deliver (JBool False) stk"
| "start_value (TNumber l) stk = deliver (JNum l) stk"
| "start_value (TString s) stk = deliver (JStr s) stk"
| "start_value TLBracket stk = Some (ValueOrClose, FArr [] # stk)"
| "start_value TLBrace stk = Some (KeyOrClose, FObj [] # stk)"
| "start_value _ stk = None"

definition close_array :: "frame list \<Rightarrow> config option" where
  "close_array stk = (case stk of FArr es # stk' \<Rightarrow> deliver (JArr es) stk' | _ \<Rightarrow> None)"

definition close_object :: "frame list \<Rightarrow> config option" where
  "close_object stk = (case stk of FObj ms # stk' \<Rightarrow> deliver (JObj ms) stk' | _ \<Rightarrow> None)"

definition read_key :: "token \<Rightarrow> frame list \<Rightarrow> config option" where
  "read_key t stk =
     (case t of
        TString k \<Rightarrow> (case stk of FObj ms # stk' \<Rightarrow> Some (Colon, FMember ms k # stk') | _ \<Rightarrow> None)
      | _ \<Rightarrow> None)"

definition read_comma :: "frame list \<Rightarrow> config option" where
  "read_comma stk =
     (case stk of
        FArr es # stk' \<Rightarrow> Some (Value, stk)
      | FObj ms # stk' \<Rightarrow> Some (Key, stk)
      | _ \<Rightarrow> None)"

fun step :: "config \<Rightarrow> token \<Rightarrow> config option" where
  "step (Value, stk) t = start_value t stk"
| "step (ValueOrClose, stk) t = (if t = TRBracket then close_array stk else start_value t stk)"
| "step (KeyOrClose, stk) t = (if t = TRBrace then close_object stk else read_key t stk)"
| "step (Key, stk) t = read_key t stk"
| "step (Colon, stk) t = (if t = TColon then Some (Value, stk) else None)"
| "step (Next, stk) t =
     (if t = TComma then read_comma stk
      else if t = TRBracket then close_array stk
      else if t = TRBrace then close_object stk
      else None)"
| "step (Done v, stk) t = None"

fun run :: "config \<Rightarrow> token list \<Rightarrow> config option" where
  "run cfg [] = Some cfg"
| "run cfg (t # ts) = (case step cfg t of None \<Rightarrow> None | Some cfg' \<Rightarrow> run cfg' ts)"

definition JSON_parse :: "jsstring \<Rightarrow> jsval option" where
  "JSON_parse text =
     (case tokenize text of
        None \<Rightarrow> None
      | Some ts \<Rightarrow>
          (case run (Value, []) ts of
             Some (Done v, []) \<Rightarrow> Some v
           | _ \<Rightarrow> None))"

text \<open>
  \<open>JSON_quote\<close> is QuoteJSONString: the short escapes, \<open>\uXXXX\<close> in lower-case
  hexadecimal for the other control characters and for a surrogate that is not part of a
  pair, and every other code unit as it is.
\<close>

definition hex_digit :: "nat \<Rightarrow> jschar" where
  "hex_digit n = js ''0123456789abcdef'' ! n"

definition unicode_escape :: "jschar \<Rightarrow> jsstring" where
  "unicode_escape c =
     [backslash, ch CHR ''u'', hex_digit (unat c div 4096), hex_digit (unat c div 256 mod 16),
      hex_digit (unat c div 16 mod 16), hex_digit (unat c mod 16)]"

definition is_lead :: "jschar \<Rightarrow> bool" where
  "is_lead c \<longleftrightarrow> 0xD800 \<le> c \<and> c \<le> 0xDBFF"

definition is_trail :: "jschar \<Rightarrow> bool" where
  "is_trail c \<longleftrightarrow> 0xDC00 \<le> c \<and> c \<le> 0xDFFF"

definition quote_unit :: "jschar \<Rightarrow> jsstring" where
  "quote_unit c =
     (if c = 0x8 then [backslash, ch CHR ''b'']
      else if c = 0x9 then [backslash, ch CHR ''t'']
      else if c = 0xA then [backslash, ch CHR ''n'']
      else if c = 0xC then [backslash, ch CHR ''f'']
      else if c = 0xD then [backslash, ch CHR ''r'']
      else if c = dquote then [backslash, dquote]
      else if c = backslash then [backslash, backslash]
      else if c < 0x20 \<or> is_lead c \<or> is_trail c then unicode_escape c
      else [c])"

fun quote_chars :: "jsstring \<Rightarrow> jsstring" where
  "quote_chars [] = []"
| "quote_chars [c] = quote_unit c"
| "quote_chars (c # d # cs) =
     (if is_lead c \<and> is_trail d then c # d # quote_chars cs
      else quote_unit c @ quote_chars (d # cs))"

definition JSON_quote :: "jsstring \<Rightarrow> jsstring" where
  "JSON_quote s = dquote # quote_chars s @ [dquote]"

fun join_comma :: "jsstring list \<Rightarrow> jsstring" where
  "join_comma [] = []"
| "join_comma [x] = x"
| "join_comma (x # y # ys) = x @ ch CHR '','' # join_comma (y # ys)"

section \<open>The application state\<close>

text \<open>
  A student is the object \<open>{ name, id, email, contact }\<close> that \<open>validateForm\<close> builds.
  The array \<open>students\<close> is a list whose elements are students or holes (\<open>None\<close>):
  an assignment \<open>students[i] = v\<close> beyond the end of a JavaScript array extends it and
  leaves holes, which \<open>some\<close> and \<open>forEach\<close> skip, which read as \<open>undefined\<close> and
  which \<open>JSON.stringify\<close> writes as \<open>null\<close>.
\<close>

record student =
  name :: jsstring
  id_field :: jsstring
  email :: jsstring
  contact :: jsstring

text \<open>A row of the table: the texts interpolated into the row's markup.\<close>

record row =
  position :: nat             \<comment> \<open>\<open>idx + 1\<close>\<close>
  cells :: "jsstring list"    \<comment> \<open>the escaped name, id, email and contact\<close>
  edit_index :: nat           \<comment> \<open>\<open>data-index\<close> of the Edit button\<close>
  delete_index :: nat         \<comment> \<open>\<open>data-index\<close> of the Delete button\<close>

text \<open>
  The state: the two variables of the script, the parts of the page that the script
  reads and writes, and the item of \<open>localStorage\<close> under \<open>STORAGE_KEY\<close>.
\<close>

record state =
  students :: "student option list"
  editIndex :: "nat option"
  nameInput :: jsstring
  idInput :: jsstring
  emailInput :: jsstring
  contactInput :: jsstring
  submitBtn :: jsstring       \<comment> \<open>the button's text\<close>
  formMsg :: jsstring         \<comment> \<open>the text of the message area\<close>
  tbody :: "row list"
  emptyState :: bool          \<comment> \<open>whether the empty hint is displayed\<close>
  storage :: "jsstring option"

subsection \<open>Storage\<close>

definition stringify_student :: "student \<Rightarrow> jsstring" where
  "stringify_student s =
     ch CHR ''{'' # JSON_quote (js ''name'') @ ch CHR '':'' # JSON_quote (name s)
     @ ch CHR '','' # JSON_quote (js ''id'') @ ch CHR '':'' # JSON_quote (id_field s)
     @ ch CHR '','' # JSON_quote (js ''email'') @ ch CHR '':'' # JSON_quote (email s)
     @ ch CHR '','' # JSON_quote (js ''contact'') @ ch CHR '':'' # JSON_quote (contact s)
     @ [ch CHR ''}'']"

definition stringify_element :: "student option \<Rightarrow> jsstring" where
  "stringify_element x = (case x of None \<Rightarrow> js ''null'' | Some s \<Rightarrow> stringify_student s)"

definition JSON_stringify :: "student option list \<Rightarrow> jsstring" where
  "JSON_stringify xs = ch CHR ''['' # join_comma (map stringify_element xs) @ [ch CHR '']'']"

text \<open>
  What \<open>localStorage.getItem\<close> does inside the \<open>try\<close> of \<open>loadStudents\<close>: it throws,
  returns \<open>null\<close>, or returns the stored string.
\<close>

datatype storage_read = ReadThrows | ReadNull | ReadString jsstring

definition loadStudents :: "storage_read \<Rightarrow> jsval" where
  "loadStudents r =
     (case r of
        ReadThrows \<Rightarrow> JArr []
      | ReadNull \<Rightarrow> JArr []
      | ReadString raw \<Rightarrow>
          if raw = [] then JArr []
          else (case JSON_parse raw of None \<Rightarrow> JArr [] | Some v \<Rightarrow> v))"

definition getItem :: "state \<Rightarrow> storage_read" where
  "getItem st = (case storage st of None \<Rightarrow> ReadNull | Some raw \<Rightarrow> ReadString raw)"

text \<open>
  \<open>saveStudents\<close> replaces the item; \<open>localStorage.setItem\<close> is taken to succeed (the
  source does not catch what it throws when the quota is exceeded).
\<close>

definition saveStudents :: "state \<Rightarrow> state" where
  "saveStudents st = st\<lparr>storage := Some (JSON_stringify (students st))\<rparr>"

text \<open>
  The handlers read four properties of an element of \<open>students\<close>, by name: \<open>s.name\<close>,
  \<open>s.id\<close>, \<open>s.email\<close>, \<open>s.contact\<close>. The state holds students, so a loaded value
  enters it when it is an array of objects in which these four properties are strings;
  the order of the members does not matter, and of a key written twice \<open>JSON.parse\<close>
  keeps the last value. \<open>as_students\<close> is \<open>None\<close> on any other value.

  Further properties of a loaded object are not kept: no handler reads them. Only
  \<open>JSON.stringify\<close> would write them back, in a text that depends on the formatting of
  numbers, which is floating-point arithmetic. What is said below of the stored item of
  a store that was loaded is therefore said of what \<open>as_students\<close> reads in it.
\<close>

definition property :: "(jsstring \<times> jsval) list \<Rightarrow> jsstring \<Rightarrow> jsval option" where
  \<comment> \<open>\<open>s[key]\<close> for an object that \<open>JSON.parse\<close> made\<close>
  "property ms key = map_of (rev ms) key"

definition string_property :: "(jsstring \<times> jsval) list \<Rightarrow> jsstring \<Rightarrow> jsstring option" where
  "string_property ms key = (case property ms key of Some (JStr s) \<Rightarrow> Some s | _ \<Rightarrow> None)"

definition as_student :: "jsval \<Rightarrow> student option" where
  "as_student v =
     (case v of
        JObj ms \<Rightarrow>
          (case (string_property ms (js ''name''), string_property ms (js ''id''),
                 string_property ms (js ''email''), string_property ms (js ''contact'')) of
             (Some a, Some b, Some c, Some d) \<Rightarrow>
               Some \<lparr>name = a, id_field = b, email = c, contact = d\<rparr>
           | _ \<Rightarrow> None)
      | _ \<Rightarrow> None)"

definition as_students :: "jsval \<Rightarrow> student option list option" where
  "as_students v =
     (case v of
        JArr vs \<Rightarrow> map_option (map Some) (those (map as_student vs))
      | _ \<Rightarrow> None)"

subsection \<open>Rendering\<close>

definition replaceAll :: "jschar \<Rightarrow> jsstring \<Rightarrow> jsstring \<Rightarrow> jsstring" where
  \<comment> \<open>\<open>str.replaceAll(p, r)\<close> for a pattern of one character\<close>
  "replaceAll p r str = concat (map (\<lambda>c. if c = p then r else [c]) str)"

definition escapeHtml :: "jsstring \<Rightarrow> jsstring" where
  "escapeHtml str =
     replaceAll (ch CHR 0x27) (js ''&#039;'')
    (replaceAll dquote (js ''&quot;'')
    (replaceAll (ch CHR ''>'') (js ''&gt;'')
    (replaceAll (ch CHR ''<'') (js ''&lt;'')
    (replaceAll (ch CHR ''&'') (js ''&amp;'') str))))"

fun render_rows :: "nat \<Rightarrow> student option list \<Rightarrow> row list" where
  "render_rows idx [] = []"
| "render_rows idx (None # xs) = render_rows (Suc idx) xs"
| "render_rows idx (Some s # xs) =
     \<lparr>position = idx + 1,
      cells = [escapeHtml (name s), escapeHtml (id_field s), escapeHtml (email s),
               escapeHtml (contact s)],
      edit_index = idx, delete_index = idx\<rparr> # render_rows (Suc idx) xs"

definition renderTable :: "state \<Rightarrow> state" where
  "renderTable st =
     st\<lparr>emptyState := (length (students st) = 0), tbody := render_rows 0 (students st)\<rparr>"

subsection \<open>The form\<close>

definition announce :: "jsstring \<Rightarrow> state \<Rightarrow> state" where
  "announce message st = st\<lparr>formMsg := message\<rparr>"

definition form_reset :: "state \<Rightarrow> state" where
  \<comment> \<open>Modelled from the spec: \<open>form.reset()\<close> restores the inputs' default values, which
      are in the page's markup and not among the sources; the spec has the form cleared.\<close>
  "form_reset st = st\<lparr>nameInput := [], idInput := [], emailInput := [], contactInput := []\<rparr>"

definition resetForm :: "state \<Rightarrow> state" where
  "resetForm st = (form_reset st)\<lparr>editIndex := None, submitBtn := js ''Add Student''\<rparr>"

definition fail :: "jsstring \<Rightarrow> state \<Rightarrow> (jsstring + student) \<times> state" where
  "fail msg st = (Inl msg, announce msg st)"

definition validateForm :: "state \<Rightarrow> (jsstring + student) \<times> state" where
  "validateForm st =
     (let name = trim (nameInput st);
          id = trim (idInput st);
          email = trim (emailInput st);
          contact = trim (contactInput st)
      in if name = [] \<or> id = [] \<or> email = [] \<or> contact = [] then
           fail (js ''Please fill in all required fields.'') st
         else if \<not> regex_test name_re name then
           fail (js ''Name must contain letters and spaces only.'') st
         else if \<not> regex_test id_re id then
           fail (js ''Student ID must contain numbers only.'') st
         else if \<not> regex_test email_re email then
           fail (js ''Please enter a valid email address.'') st
         else if \<not> regex_test contact_re contact then
           fail (js ''Contact number must be at least 10 digits (numbers only).'') st
         else (Inr \<lparr>name = name, id_field = id, email = email, contact = contact\<rparr>, st))"

subsection \<open>Row actions\<close>

definition element_at :: "'a option list \<Rightarrow> int \<Rightarrow> 'a option" where
  \<comment> \<open>\<open>students[index]\<close>: \<open>undefined\<close> outside the array and at a hole\<close>
  "element_at xs i = (if 0 \<le> i \<and> i < int (length xs) then xs ! nat i else None)"

definition splice1 :: "'a list \<Rightarrow> int \<Rightarrow> 'a list" where
  \<comment> \<open>\<open>splice(index, 1)\<close>: a negative index counts from the end\<close>
  "splice1 xs i =
     (let len = int (length xs);
          start = (if i < 0 then max (len + i) 0 else min i len)
      in take (nat start) xs @ drop (nat start + 1) xs)"

definition startEdit :: "int \<Rightarrow> state \<Rightarrow> state" where
  "startEdit index st =
     (case element_at (students st) index of
        None \<Rightarrow> st
      | Some s \<Rightarrow>
          announce (js ''Editing record. Make changes and press Update.'')
            (st\<lparr>editIndex := Some (nat index),
                nameInput := name s, idInput := id_field s,
                emailInput := email s, contactInput := contact s,
                submitBtn := js ''Update Student''\<rparr>))"

definition deleteRow :: "int \<Rightarrow> bool \<Rightarrow> state \<Rightarrow> state" where
  \<comment> \<open>\<open>ok\<close> is the answer to \<open>confirm\<close>\<close>
  "deleteRow index ok st =
     (case element_at (students st) index of
        None \<Rightarrow> st
      | Some s \<Rightarrow>
          if \<not> ok then st
          else announce (js ''Record deleted.'')
                 (resetForm (renderTable (saveStudents
                   (st\<lparr>students := splice1 (students st) index\<rparr>)))))"

subsection \<open>Submission\<close>

definition assign :: "'a option list \<Rightarrow> nat \<Rightarrow> 'a \<Rightarrow> 'a option list" where
  \<comment> \<open>\<open>xs[i] = v\<close>: beyond the end the array grows, with holes up to \<open>i\<close>\<close>
  "assign xs i v =
     (if i < length xs then xs[i := Some v]
      else xs @ replicate (i - length xs) None @ [Some v])"

definition same_fields :: "student \<Rightarrow> student option \<Rightarrow> bool" where
  \<comment> \<open>the callback of \<open>students.some\<close>\<close>
  "same_fields v x =
     (case x of
        None \<Rightarrow> False
      | Some s \<Rightarrow> name s = name v \<and> id_field s = id_field v
                   \<and> email s = email v \<and> contact s = contact v)"

definition submit :: "state \<Rightarrow> state" where
  "submit st =
     (case validateForm st of
        (Inl err, st1) \<Rightarrow> st1
      | (Inr v, st1) \<Rightarrow>
          let exists = list_ex (same_fields v) (students st1) in
          if exists \<and> editIndex st1 = None then
            announce (js ''This exact record already exists.'') st1
          else
            let st2 = (case editIndex st1 of
                         None \<Rightarrow> announce (js ''Student added.'')
                                   (st1\<lparr>students := students st1 @ [Some v]\<rparr>)
                       | Some i \<Rightarrow> announce (js ''Student updated.'')
                                     (st1\<lparr>students := assign (students st1) i v\<rparr>))
            in resetForm (renderTable (saveStudents st2)))"

subsection \<open>Start and events\<close>

text \<open>
  The \<open>DOMContentLoaded\<close> handler assigns the loaded value to \<open>students\<close> and renders
  the table. \<open>boot\<close> is \<open>None\<close> where the loaded value is outside the typed state.
\<close>

definition boot :: "state \<Rightarrow> state option" where
  "boot st =
     (case as_students (loadStudents (getItem st)) of
        None \<Rightarrow> None
      | Some xs \<Rightarrow> Some (renderTable (st\<lparr>students := xs, editIndex := None\<rparr>)))"

text \<open>
  On a loaded value outside the typed state the handler may throw a \<open>TypeError\<close>, in
  \<open>renderTable\<close>: at \<open>students.length\<close> when the value is \<open>null\<close>; at
  \<open>students.forEach\<close> when it is no array (no value of a JSON text is a function); for
  an element \<open>s\<close> of an array, at \<open>s.name\<close> when \<open>s\<close> is \<open>null\<close>, and in the
  \<open>String(str)\<close> of \<open>escapeHtml\<close> when one of the four properties has no string
  form. \<open>String\<close> throws on an object with a property \<open>toString\<close> of its own (which is
  no function, and \<open>valueOf\<close> returns the object), and on an array with such an element
  (\<open>join\<close> takes the string form of each element that is not \<open>null\<close>); a property
  that is absent is \<open>undefined\<close> and has a string form. Nothing catches the error, so the
  steps of the start that follow \<open>renderTable\<close> are not run.
\<close>

fun String_throws :: "jsval \<Rightarrow> bool" where
  "String_throws (JArr vs) = list_ex String_throws vs"
| "String_throws (JObj ms) = list_ex (\<lambda>m. fst m = js ''toString'') ms"
| "String_throws _ = False"

definition cell_throws :: "jsval \<Rightarrow> jsstring \<Rightarrow> bool" where
  \<comment> \<open>\<open>escapeHtml(s[key])\<close> for an element \<open>s\<close> of the loaded array\<close>
  "cell_throws x key =
     (case x of
        JNull \<Rightarrow> True
      | JObj ms \<Rightarrow> (case property ms key of None \<Rightarrow> False | Some p \<Rightarrow> String_throws p)
      | _ \<Rightarrow> False)"

definition start_throws :: "jsval \<Rightarrow> bool" where
  \<comment> \<open>whether \<open>renderTable\<close>, at the start, throws on the loaded value\<close>
  "start_throws v =
     (case v of
        JArr vs \<Rightarrow>
          list_ex (\<lambda>x. list_ex (cell_throws x)
                     [js ''name'', js ''id'', js ''email'', js ''contact'']) vs
      | _ \<Rightarrow> True)"

text \<open>
  What can happen after the start: the user changes the inputs (to any text; the live
  sanitizers only narrow this), submits the form, clicks Edit or Delete on a row (and
  answers the confirmation), or the form is reset through \<open>resetForm\<close>.
\<close>

datatype event =
    Type jsstring jsstring jsstring jsstring
  | Submit
  | ClickEdit int
  | ClickDelete int bool
  | Reset

fun handle :: "state \<Rightarrow> event \<Rightarrow> state" where
  "handle st (Type n i e c) = st\<lparr>nameInput := n, idInput := i, emailInput := e, contactInput := c\<rparr>"
| "handle st Submit = submit st"
| "handle st (ClickEdit index) = startEdit index st"
| "handle st (ClickDelete index ok) = deleteRow index ok st"
| "handle st Reset = resetForm st"

definition run_events :: "state \<Rightarrow> event list \<Rightarrow> state" where
  "run_events st evs = foldl handle st evs"

subsection \<open>The edit marker\<close>

text \<open>\<open>edit_ok\<close>: \<open>editIndex\<close> is \<open>null\<close> or an index into \<open>students\<close>.\<close>

definition edit_ok :: "state \<Rightarrow> bool" where
  "edit_ok st = (case editIndex st of None \<Rightarrow> True | Some i \<Rightarrow> i < length (students st))"

section \<open>Sample data\<close>

text \<open>The records of the spec's end-to-end scenario, and a page that holds them.\<close>

definition ann :: student where
  "ann = \<lparr>name = js ''Ann Lee'', id_field = js ''123'', email = js ''a@b.com'',
          contact = js ''1234567890''\<rparr>"

definition ann2 :: student where
  "ann2 = ann\<lparr>contact := js ''9999999999''\<rparr>"

definition bob :: student where
  "bob = \<lparr>name = js ''Bob'', id_field = js ''7'', email = js ''bob@x.org'',
          contact = js ''123456789012345''\<rparr>"

definition page :: "student option list \<Rightarrow> nat option \<Rightarrow> student \<Rightarrow> state" where
  \<comment> \<open>the page with the store \<open>xs\<close>, the edit marker \<open>ei\<close> and the fields of \<open>f\<close> typed in\<close>
  "page xs ei f =
     \<lparr>students = xs, editIndex = ei,
      nameInput = name f, idInput = id_field f, emailInput = email f, contactInput = contact f,
      submitBtn = (if ei = None then js ''Add Student'' else js ''Update Student''),
      formMsg = [], tbody = render_rows 0 xs, emptyState = (xs = []), storage = None\<rparr>"

definition foreign_page :: state where
  \<comment> \<open>a page whose stored item was written by something else\<close>
  "foreign_page = (page [] None bob)\<lparr>storage :=
     Some (js ''[{\"name\":\"<b>\",\"id\":\"x\",\"email\":\"y\",\"contact\":\"1\"}]'')\<rparr>"

definition reordered_page :: state where
  \<comment> \<open>a stored item with the members in another order, a further member and a key
      written twice\<close>
  "reordered_page = (page [] None bob)\<lparr>storage := Some (js
     ''[{\"id\":\"123\",\"age\":7,\"name\":\"Zed\",\"name\":\"Ann Lee\",\"contact\":\"1234567890\",\"email\":\"a@b.com\"}]'')\<rparr>"

section \<open>Notions for the properties\<close>

subsection \<open>Escaped text\<close>

text \<open>What the five replacements of \<open>escapeHtml\<close> make of one character.\<close>

definition escape_char :: "jschar \<Rightarrow> jsstring" where
  "escape_char c =
     (if c = ch CHR ''&'' then js ''&amp;''
      else if c = ch CHR ''<'' then js ''&lt;''
      else if c = ch CHR ''>'' then js ''&gt;''
      else if c = dquote then js ''&quot;''
      else if c = ch CHR 0x27 then js ''&#039;''
      else [c])"

text \<open>
  The five entities that \<open>escapeHtml\<close> emits, after their ampersand; \<open>amp_ok w\<close> says
  that each ampersand of \<open>w\<close> is followed by one of them.
\<close>

definition entity_tails :: "jsstring list" where
  "entity_tails = [js ''amp;'', js ''lt;'', js ''gt;'', js ''quot;'', js ''#039;'']"

fun amp_ok :: "jsstring \<Rightarrow> bool" where
  "amp_ok [] = True"
| "amp_ok (c # cs) =
     ((c = ch CHR ''&'' \<longrightarrow> (\<exists>t\<in>set entity_tails. take (length t) cs = t)) \<and> amp_ok cs)"

text \<open>
  How a browser reads the text of a cell back: each of the five entities stands for its
  character, every other character for itself.
\<close>

fun decode_entities :: "jsstring \<Rightarrow> jsstring" where
  "decode_entities [] = []"
| "decode_entities (c # cs) =
     (if c = ch CHR ''&'' \<and> take 4 cs = js ''amp;'' then ch CHR ''&'' # decode_entities (drop 4 cs)
      else if c = ch CHR ''&'' \<and> take 3 cs = js ''lt;'' then ch CHR ''<'' # decode_entities (drop 3 cs)
      else if c = ch CHR ''&'' \<and> take 3 cs = js ''gt;'' then ch CHR ''>'' # decode_entities (drop 3 cs)
      else if c = ch CHR ''&'' \<and> take 5 cs = js ''quot;'' then dquote # decode_entities (drop 5 cs)
      else if c = ch CHR ''&'' \<and> take 5 cs = js ''#039;''
        then ch CHR 0x27 # decode_entities (drop 5 cs)
      else c # decode_entities cs)"

subsection \<open>Patterns and their languages\<close>

text \<open>
  \<open>lang r\<close> is the set of strings that the pattern \<open>r\<close> matches as a whole; the
  derivative matcher decides membership in it.
\<close>

inductive_set star :: "'a list set \<Rightarrow> 'a list set" for A :: "'a list set" where
  star_empty: "[] \<in> star A"
| star_more: "u \<in> A \<Longrightarrow> v \<in> star A \<Longrightarrow> u @ v \<in> star A"

definition conc :: "'a list set \<Rightarrow> 'a list set \<Rightarrow> 'a list set" where
  "conc A B = {w. \<exists>u v. w = u @ v \<and> u \<in> A \<and> v \<in> B}"

fun lang :: "regex \<Rightarrow> jsstring set" where
  "lang Nothing = {}"
| "lang Empty = {[]}"
| "lang (Bracket cs) = {w. \<exists>c. w = [c] \<and> list_ex (in_cclass c) cs}"
| "lang (NegBracket cs) = {w. \<exists>c. w = [c] \<and> \<not> list_ex (in_cclass c) cs}"
| "lang (Lit d) = {[d]}"
| "lang (Either r s) = lang r \<union> lang s"
| "lang (Then r s) = conc (lang r) (lang s)"
| "lang (Many r) = star (lang r)"

subsection \<open>The validator of the specification\<close>

text \<open>The four checks in the words of the specification.\<close>

definition is_letter :: "jschar \<Rightarrow> bool" where
  "is_letter c \<longleftrightarrow> (ch CHR ''A'' \<le> c \<and> c \<le> ch CHR ''Z'') \<or> (ch CHR ''a'' \<le> c \<and> c \<le> ch CHR ''z'')"

definition letters_and_spaces :: "jsstring \<Rightarrow> bool" where
  \<comment> \<open>one or more letters or spaces, nothing else\<close>
  "letters_and_spaces s \<longleftrightarrow> s \<noteq> [] \<and> (\<forall>c\<in>set s. is_letter c \<or> c = ch CHR '' '')"

definition digits_only :: "jsstring \<Rightarrow> bool" where
  \<comment> \<open>one or more digits, nothing else\<close>
  "digits_only s \<longleftrightarrow> s \<noteq> [] \<and> (\<forall>c\<in>set s. is_digit c)"

definition ten_or_more_digits :: "jsstring \<Rightarrow> bool" where
  \<comment> \<open>ten or more digits, nothing else, with no upper bound\<close>
  "ten_or_more_digits s \<longleftrightarrow> 10 \<le> length s \<and> (\<forall>c\<in>set s. is_digit c)"

definition plain :: "jschar \<Rightarrow> bool" where
  \<comment> \<open>neither whitespace nor \<open>@\<close>\<close>
  "plain c \<longleftrightarrow> \<not> is_ws c \<and> c \<noteq> ch CHR ''@''"

definition email_shape :: "jsstring \<Rightarrow> bool" where
  \<comment> \<open>plain characters, \<open>@\<close>, plain characters, a dot, plain characters\<close>
  "email_shape s \<longleftrightarrow>
     (\<exists>a b c. s = a @ ch CHR ''@'' # b @ ch CHR ''.'' # c
        \<and> a \<noteq> [] \<and> (\<forall>x\<in>set a. plain x)
        \<and> b \<noteq> [] \<and> (\<forall>x\<in>set b. plain x)
        \<and> c \<noteq> [] \<and> (\<forall>x\<in>set c. plain x))"

definition email_shape_claimed :: "jsstring \<Rightarrow> bool" where
  \<comment> \<open>as the claim words it: after the dot, characters that are not whitespace\<close>
  "email_shape_claimed s \<longleftrightarrow>
     (\<exists>a b c. s = a @ ch CHR ''@'' # b @ ch CHR ''.'' # c
        \<and> a \<noteq> [] \<and> (\<forall>x\<in>set a. plain x)
        \<and> b \<noteq> [] \<and> (\<forall>x\<in>set b. plain x)
        \<and> c \<noteq> [] \<and> (\<forall>x\<in>set c. \<not> is_ws x))"

text \<open>
  The validator in the words of the specification: the five checks in their order, each
  with its reason, and on success the four fields trimmed and otherwise as they were.
  The shape of an email address is a parameter.
\<close>

datatype reason = MissingField | InvalidName | InvalidId | InvalidEmail | InvalidContact

fun reason_message :: "reason \<Rightarrow> jsstring" where
  "reason_message MissingField = js ''Please fill in all required fields.''"
| "reason_message InvalidName = js ''Name must contain letters and spaces only.''"
| "reason_message InvalidId = js ''Student ID must contain numbers only.''"
| "reason_message InvalidEmail = js ''Please enter a valid email address.''"
| "reason_message InvalidContact =
     js ''Contact number must be at least 10 digits (numbers only).''"

definition ordered_checks ::
  "(jsstring \<Rightarrow> bool) \<Rightarrow> jsstring \<Rightarrow> jsstring \<Rightarrow> jsstring \<Rightarrow> jsstring \<Rightarrow> reason + student" where
  "ordered_checks email_ok n i e c =
     (if trim n = [] \<or> trim i = [] \<or> trim e = [] \<or> trim c = [] then Inl MissingField
      else if \<not> letters_and_spaces (trim n) then Inl InvalidName
      else if \<not> digits_only (trim i) then Inl InvalidId
      else if \<not> email_ok (trim e) then Inl InvalidEmail
      else if \<not> ten_or_more_digits (trim c) then Inl InvalidContact
      else Inr \<lparr>name = trim n, id_field = trim i, email = trim e, contact = trim c\<rparr>)"

subsection \<open>A serialized store\<close>

text \<open>The tokens of a serialized store.\<close>

definition student_tokens :: "student \<Rightarrow> token list" where
  "student_tokens r =
     [TLBrace, TString (js ''name''), TColon, TString (name r), TComma,
      TString (js ''id''), TColon, TString (id_field r), TComma,
      TString (js ''email''), TColon, TString (email r), TComma,
      TString (js ''contact''), TColon, TString (contact r), TRBrace]"

definition element_tokens :: "student option \<Rightarrow> token list" where
  "element_tokens x = (case x of None \<Rightarrow> [TNull] | Some r \<Rightarrow> student_tokens r)"

fun join_tokens :: "student option list \<Rightarrow> token list" where
  "join_tokens [] = []"
| "join_tokens [x] = element_tokens x"
| "join_tokens (x # y # ys) = element_tokens x @ TComma # join_tokens (y # ys)"

text \<open>The value of a serialized store: a hole is read back as \<open>null\<close>.\<close>

definition student_val :: "student \<Rightarrow> jsval" where
  "student_val r =
     JObj [(js ''name'', JStr (name r)), (js ''id'', JStr (id_field r)),
           (js ''email'', JStr (email r)), (js ''contact'', JStr (contact r))]"

definition element_val :: "student option \<Rightarrow> jsval" where
  "element_val x = (case x of None \<Rightarrow> JNull | Some r \<Rightarrow> student_val r)"

subsection \<open>Valid records\<close>

text \<open>The four field constraints of the data model, and a store whose records meet them.\<close>

definition record_ok :: "student \<Rightarrow> bool" where
  "record_ok r \<longleftrightarrow>
     letters_and_spaces (name r) \<and> digits_only (id_field r) \<and> email_shape (email r)
     \<and> ten_or_more_digits (contact r)"

definition store_ok :: "student option list \<Rightarrow> bool" where
  "store_ok xs \<longleftrightarrow> (\<forall>r. Some r \<in> set xs \<longrightarrow> record_ok r)"

definition in_step :: "state \<Rightarrow> bool" where
  \<comment> \<open>valid records, none missing, the marker in range, the table showing the store, and
      the store read back from the stored item\<close>
  "in_step s \<longleftrightarrow>
     store_ok (students s) \<and> None \<notin> set (students s) \<and> edit_ok s
     \<and> tbody s = render_rows 0 (students s)
     \<and> as_students (loadStudents (getItem s)) = Some (students s)"

section \<open>Properties of the handlers\<close>

subsection \<open>Evaluation of the samples\<close>

lemma AtLeast_numeral: "AtLeast (numeral n) r = Then r (AtLeast (pred_numeral n) r)"
  by (simp add: numeral_eq_Suc)

lemmas eval_simps =
  js_def ch_def is_ws_def trim_def regex_test_def name_re_def id_re_def email_re_def
  contact_re_def OneOrMore_def AtLeast_numeral validateForm_def fail_def announce_def Let_def

lemma validate_ann: "validateForm (page xs ei ann) = (Inr ann, page xs ei ann)"
  by (simp add: page_def ann_def eval_simps)

lemma validate_ann2: "validateForm (page xs ei ann2) = (Inr ann2, page xs ei ann2)"
  by (simp add: page_def ann2_def ann_def eval_simps)

lemma validate_bob: "validateForm (page xs ei bob) = (Inr bob, page xs ei bob)"
  by (simp add: page_def bob_def eval_simps)

lemma validate_short_contact:
  "fst (validateForm (page xs ei (ann\<lparr>contact := js ''555''\<rparr>))) =
     Inl (js ''Contact number must be at least 10 digits (numbers only).'')"
  by (simp add: page_def ann_def eval_simps)

lemma page_simps:
  "students (page xs ei f) = xs"
  "editIndex (page xs ei f) = ei"
  "storage (page xs ei f) = None"
  "formMsg (page xs ei f) = []"
  by (simp_all add: page_def)

subsection \<open>What a submission does\<close>

lemma validateForm_cases:
  "(\<exists>v. validateForm st = (Inr v, st)) \<or> (\<exists>m. validateForm st = (Inl m, st\<lparr>formMsg := m\<rparr>))"
  by (simp add: validateForm_def fail_def announce_def Let_def)

lemma validateForm_Inr: "fst (validateForm st) = Inr v \<Longrightarrow> validateForm st = (Inr v, st)"
  using validateForm_cases [of st] by auto

lemma validateForm_Inl:
  "fst (validateForm st) = Inl m \<Longrightarrow> validateForm st = (Inl m, st\<lparr>formMsg := m\<rparr>)"
  using validateForm_cases [of st] by auto

lemma student_eq_iff:
  fixes s v :: student
  shows "s = v \<longleftrightarrow> name s = name v \<and> id_field s = id_field v \<and> email s = email v
                 \<and> contact s = contact v"
  by (cases s, cases v) auto

lemma same_fields_eq: "same_fields v x \<longleftrightarrow> x = Some v"
  by (cases x) (auto simp: same_fields_def student_eq_iff)

lemma list_ex_same_fields: "list_ex (same_fields v) xs \<longleftrightarrow> Some v \<in> set xs"
  by (auto simp: list_ex_iff same_fields_eq)

lemma submit_rejected:
  "fst (validateForm st) = Inl m \<Longrightarrow> submit st = st\<lparr>formMsg := m\<rparr>"
  by (simp add: submit_def validateForm_Inl)

lemma submit_duplicate:
  "fst (validateForm st) = Inr v \<Longrightarrow> editIndex st = None \<Longrightarrow> Some v \<in> set (students st) \<Longrightarrow>
   submit st = st\<lparr>formMsg := js ''This exact record already exists.''\<rparr>"
  by (simp add: submit_def validateForm_Inr list_ex_same_fields announce_def)

lemma submit_add:
  "fst (validateForm st) = Inr v \<Longrightarrow> editIndex st = None \<Longrightarrow> Some v \<notin> set (students st) \<Longrightarrow>
   submit st = resetForm (renderTable (saveStudents
     (announce (js ''Student added.'') (st\<lparr>students := students st @ [Some v]\<rparr>))))"
  by (simp add: submit_def validateForm_Inr list_ex_same_fields)

lemma submit_update:
  "fst (validateForm st) = Inr v \<Longrightarrow> editIndex st = Some i \<Longrightarrow>
   submit st = resetForm (renderTable (saveStudents
     (announce (js ''Student updated.'') (st\<lparr>students := assign (students st) i v\<rparr>))))"
  by (simp add: submit_def validateForm_Inr)

lemma students_after [simp]:
  "students (resetForm st) = students st"
  "students (renderTable st) = students st"
  "students (saveStudents st) = students st"
  "students (announce m st) = students st"
  by (simp_all add: resetForm_def form_reset_def renderTable_def saveStudents_def announce_def)

lemma editIndex_after [simp]:
  "editIndex (resetForm st) = None"
  "editIndex (renderTable st) = editIndex st"
  "editIndex (saveStudents st) = editIndex st"
  "editIndex (announce m st) = editIndex st"
  by (simp_all add: resetForm_def form_reset_def renderTable_def saveStudents_def announce_def)

lemma formMsg_after [simp]:
  "formMsg (resetForm st) = formMsg st"
  "formMsg (renderTable st) = formMsg st"
  "formMsg (saveStudents st) = formMsg st"
  "formMsg (announce m st) = m"
  by (simp_all add: resetForm_def form_reset_def renderTable_def saveStudents_def announce_def)

lemma storage_after [simp]:
  "storage (resetForm st) = storage st"
  "storage (renderTable st) = storage st"
  "storage (saveStudents st) = Some (JSON_stringify (students st))"
  "storage (announce m st) = storage st"
  by (simp_all add: resetForm_def form_reset_def renderTable_def saveStudents_def announce_def)

lemma element_at_Some:
  "element_at xs i = Some s \<Longrightarrow> 0 \<le> i \<and> nat i < length xs \<and> xs ! nat i = Some s"
  by (auto simp: element_at_def split: if_splits)


subsection \<open>Editing replaces one position\<close>

text \<open>
  C7. In edit mode at a position \<open>i\<close> of the store, a submission that passes validation
  leaves the length of the store as it was, puts the validated record at \<open>i\<close> and leaves
  every other position as it was.
\<close>

theorem edit_replaces_one_position:
  assumes "fst (validateForm st) = Inr v" and "editIndex st = Some i"
    and "i < length (students st)"
  shows "length (students (submit st)) = length (students st)
       \<and> students (submit st) ! i = Some v
       \<and> (\<forall>j < length (students st). j \<noteq> i \<longrightarrow> students (submit st) ! j = students st ! j)"
  using assms by (simp add: submit_update assign_def)

theorem edit_replaces_one_position_witness:
  "fst (validateForm (page [Some ann, Some bob] (Some 0) ann2)) = Inr ann2
   \<and> editIndex (page [Some ann, Some bob] (Some 0) ann2) = Some 0
   \<and> 0 < length (students (page [Some ann, Some bob] (Some 0) ann2))
   \<and> length (students (submit (page [Some ann, Some bob] (Some 0) ann2))) = 2
   \<and> students (submit (page [Some ann, Some bob] (Some 0) ann2)) ! 0 = Some ann2
   \<and> students (submit (page [Some ann, Some bob] (Some 0) ann2)) ! 1 = Some bob"
proof -
  let ?st = "page [Some ann, Some bob] (Some 0) ann2"
  have v: "fst (validateForm ?st) = Inr ann2" by (simp add: validate_ann2)
  have e: "editIndex ?st = Some 0" by (simp add: page_simps)
  have l: "0 < length (students ?st)" by (simp add: page_simps)
  have s: "students ?st = [Some ann, Some bob]" by (simp add: page_simps)
  from edit_replaces_one_position [OF v e l] v e l s show ?thesis by simp
qed

subsection \<open>Failure paths\<close>

text \<open>
  C8. A submission that validation rejects, a submission in add mode whose record is
  already in the store, and a delete that the user declines all return the state as it
  was, but for the message shown: the store, the stored item, the table, the edit marker
  and the four inputs are unchanged.
\<close>

theorem failure_paths_change_nothing:
  "(\<forall>m. fst (validateForm st) = Inl m \<longrightarrow> submit st = st\<lparr>formMsg := m\<rparr>)
   \<and> (\<forall>v. fst (validateForm st) = Inr v \<and> editIndex st = None \<and> Some v \<in> set (students st)
          \<longrightarrow> submit st = st\<lparr>formMsg := js ''This exact record already exists.''\<rparr>)
   \<and> deleteRow index False st = st"
  by (auto simp: submit_rejected submit_duplicate deleteRow_def split: option.splits)

theorem failure_paths_change_nothing_witness:
  "fst (validateForm (page [Some ann] (Some 0) (ann\<lparr>contact := js ''555''\<rparr>))) =
     Inl (js ''Contact number must be at least 10 digits (numbers only).'')
   \<and> submit (page [Some ann] (Some 0) (ann\<lparr>contact := js ''555''\<rparr>)) =
       (page [Some ann] (Some 0) (ann\<lparr>contact := js ''555''\<rparr>))
         \<lparr>formMsg := js ''Contact number must be at least 10 digits (numbers only).''\<rparr>
   \<and> fst (validateForm (page [Some ann] None ann)) = Inr ann
   \<and> submit (page [Some ann] None ann) =
       (page [Some ann] None ann)\<lparr>formMsg := js ''This exact record already exists.''\<rparr>
   \<and> deleteRow 0 False (page [Some ann] None ann) = page [Some ann] None ann"
proof -
  let ?bad = "page [Some ann] (Some 0) (ann\<lparr>contact := js ''555''\<rparr>)"
  let ?dup = "page [Some ann] None ann"
  have r: "fst (validateForm ?bad) =
      Inl (js ''Contact number must be at least 10 digits (numbers only).'')"
    by (rule validate_short_contact)
  have v: "fst (validateForm ?dup) = Inr ann" by (simp add: validate_ann)
  have d: "editIndex ?dup = None \<and> Some ann \<in> set (students ?dup)" by (simp add: page_simps)
  from failure_paths_change_nothing [of ?bad 0] r
  have 1: "submit ?bad =
      ?bad\<lparr>formMsg := js ''Contact number must be at least 10 digits (numbers only).''\<rparr>"
    by blast
  from failure_paths_change_nothing [of ?dup 0] v d
  have 2: "submit ?dup = ?dup\<lparr>formMsg := js ''This exact record already exists.''\<rparr>"
    and 3: "deleteRow 0 False ?dup = ?dup"
    by blast+
  from r v 1 2 3 show ?thesis by blast
qed

subsection \<open>Duplicates\<close>

text \<open>
  C2. For a submission that passes validation with the record \<open>v\<close>: in add mode it is
  answered with the duplicate message and leaves the store and the stored item unchanged
  if and only if some record of the store has the four fields of \<open>v\<close>; in edit mode at
  \<open>i\<close> it is not checked for duplicates: the record is assigned to position \<open>i\<close>, saved,
  and answered with the update message, also when the store holds an equal record.
\<close>

theorem duplicate_check_only_when_adding:
  assumes "fst (validateForm st) = Inr v"
  shows "(editIndex st = None \<longrightarrow>
           ((formMsg (submit st) = js ''This exact record already exists.''
              \<and> students (submit st) = students st \<and> storage (submit st) = storage st)
            \<longleftrightarrow> (\<exists>s. Some s \<in> set (students st) \<and> name s = name v \<and> id_field s = id_field v
                       \<and> email s = email v \<and> contact s = contact v)))
       \<and> (\<forall>i. editIndex st = Some i \<longrightarrow>
             students (submit st) = assign (students st) i v
           \<and> storage (submit st) = Some (JSON_stringify (assign (students st) i v))
           \<and> formMsg (submit st) = js ''Student updated.'')"
proof (intro conjI impI allI)
  assume add: "editIndex st = None"
  have ex: "(\<exists>s. Some s \<in> set (students st) \<and> name s = name v \<and> id_field s = id_field v
                  \<and> email s = email v \<and> contact s = contact v) \<longleftrightarrow> Some v \<in> set (students st)"
    by (auto simp: student_eq_iff [symmetric])
  show "(formMsg (submit st) = js ''This exact record already exists.''
           \<and> students (submit st) = students st \<and> storage (submit st) = storage st)
        \<longleftrightarrow> (\<exists>s. Some s \<in> set (students st) \<and> name s = name v \<and> id_field s = id_field v
                   \<and> email s = email v \<and> contact s = contact v)"
  proof (cases "Some v \<in> set (students st)")
    case True
    with assms add ex show ?thesis by (simp add: submit_duplicate)
  next
    case False
    with assms add have "students (submit st) = students st @ [Some v]"
      by (simp add: submit_add)
    with False ex show ?thesis by simp
  qed
next
  fix i
  assume "editIndex st = Some i"
  with assms show "students (submit st) = assign (students st) i v"
    and "storage (submit st) = Some (JSON_stringify (assign (students st) i v))"
    and "formMsg (submit st) = js ''Student updated.''"
    by (simp_all add: submit_update)
qed

theorem duplicate_check_only_when_adding_witness:
  "fst (validateForm (page [Some ann, Some bob] None ann)) = Inr ann
   \<and> formMsg (submit (page [Some ann, Some bob] None ann)) = js ''This exact record already exists.''
   \<and> students (submit (page [Some ann, Some bob] None ann)) = [Some ann, Some bob]
   \<and> storage (submit (page [Some ann, Some bob] None ann)) = None
   \<and> fst (validateForm (page [Some ann, Some bob] (Some 1) ann)) = Inr ann
   \<and> students (submit (page [Some ann, Some bob] (Some 1) ann)) = [Some ann, Some ann]
   \<and> formMsg (submit (page [Some ann, Some bob] (Some 1) ann)) = js ''Student updated.''"
proof -
  let ?add = "page [Some ann, Some bob] None ann"
  let ?edit = "page [Some ann, Some bob] (Some 1) ann"
  have va: "fst (validateForm ?add) = Inr ann" by (simp add: validate_ann)
  have ve: "fst (validateForm ?edit) = Inr ann" by (simp add: validate_ann)
  have ex: "\<exists>s. Some s \<in> set (students ?add) \<and> name s = name ann \<and> id_field s = id_field ann
                 \<and> email s = email ann \<and> contact s = contact ann"
    by (rule exI [of _ ann]) (simp add: page_simps)
  from duplicate_check_only_when_adding [OF va] ex
  have 1: "formMsg (submit ?add) = js ''This exact record already exists.''
        \<and> students (submit ?add) = students ?add \<and> storage (submit ?add) = storage ?add"
    by (simp add: page_simps)
  from duplicate_check_only_when_adding [OF ve]
  have 2: "students (submit ?edit) = assign (students ?edit) 1 ann
        \<and> formMsg (submit ?edit) = js ''Student updated.''"
    by (simp add: page_simps)
  from va ve 1 2 show ?thesis by (simp add: page_simps assign_def)
qed

subsection \<open>The edit marker stays in range\<close>

lemma edit_ok_submit: "edit_ok st \<Longrightarrow> edit_ok (submit st)"
  using validateForm_cases [of st]
  by (auto simp: submit_def edit_ok_def announce_def Let_def split: option.splits)

lemma edit_ok_handle: "edit_ok st \<Longrightarrow> edit_ok (handle st e)"
proof (cases e)
  case Submit
  assume "edit_ok st"
  with Submit show ?thesis by (simp add: edit_ok_submit)
next
  case (ClickEdit i)
  assume "edit_ok st"
  with ClickEdit show ?thesis
    by (auto simp: startEdit_def edit_ok_def announce_def dest: element_at_Some
        split: option.splits)
next
  case (ClickDelete i ok)
  assume "edit_ok st"
  with ClickDelete show ?thesis
    by (auto simp: deleteRow_def edit_ok_def split: option.splits)
next
  case Reset
  then show ?thesis by (simp add: edit_ok_def)
next
  case (Type a b c d)
  assume "edit_ok st"
  with Type show ?thesis by (simp add: edit_ok_def split: option.splits)
qed

lemma edit_ok_run: "edit_ok st \<Longrightarrow> edit_ok (run_events st evs)"
  unfolding run_events_def
  by (induction evs arbitrary: st) (simp_all add: edit_ok_handle)

lemma length_change_resets:
  "length (students (handle s e)) \<noteq> length (students s) \<Longrightarrow> editIndex (handle s e) = None"
proof (cases e)
  case Submit
  assume "length (students (handle s e)) \<noteq> length (students s)"
  with Submit validateForm_cases [of s] show ?thesis
    by (auto simp: submit_def announce_def Let_def split: if_splits)
next
  case (ClickEdit i)
  assume "length (students (handle s e)) \<noteq> length (students s)"
  with ClickEdit show ?thesis
    by (auto simp: startEdit_def announce_def split: option.splits)
next
  case (ClickDelete i ok)
  assume "length (students (handle s e)) \<noteq> length (students s)"
  with ClickDelete show ?thesis
    by (auto simp: deleteRow_def split: option.splits if_splits)
next
  case Reset
  then show ?thesis by simp
next
  case (Type a b c d)
  assume "length (students (handle s e)) \<noteq> length (students s)"
  with Type show ?thesis by simp
qed

text \<open>
  C10. The script starts with \<open>editIndex\<close> null. After any sequence of events from such
  a state, \<open>editIndex\<close> is null or an index into \<open>students\<close>, so the submit handler never
  assigns outside the array; and in any state, an event that changes the length of
  \<open>students\<close> leaves \<open>editIndex\<close> null.
\<close>

theorem edit_marker_in_range:
  assumes "editIndex st = None"
  shows "edit_ok (run_events st evs)
       \<and> (length (students (handle s e)) \<noteq> length (students s) \<longrightarrow> editIndex (handle s e) = None)"
proof -
  from assms have "edit_ok st" by (simp add: edit_ok_def)
  then have "edit_ok (run_events st evs)" by (rule edit_ok_run)
  then show ?thesis by (simp add: length_change_resets)
qed

theorem edit_marker_in_range_witness:
  "editIndex (page [Some ann, Some bob] None ann2) = None
   \<and> edit_ok (run_events (page [Some ann, Some bob] None ann2)
        [ClickEdit 1, Type (js ''Bo'') (js ''8'') (js ''bo@x.org'') (js ''12345678901''), Submit,
         ClickDelete 0 True, ClickEdit 0])
   \<and> length (students (handle (page [Some ann, Some bob] (Some 1) ann2) (ClickDelete 0 True))) = 1
   \<and> editIndex (handle (page [Some ann, Some bob] (Some 1) ann2) (ClickDelete 0 True)) = None"
proof -
  let ?s = "page [Some ann, Some bob] (Some 1) ann2"
  have h: "editIndex (page [Some ann, Some bob] None ann2) = None" by (simp add: page_simps)
  have l: "length (students (handle ?s (ClickDelete 0 True))) = 1"
    by (simp add: deleteRow_def element_at_def splice1_def page_simps)
  then have n: "length (students (handle ?s (ClickDelete 0 True))) \<noteq> length (students ?s)"
    by (simp add: page_simps)
  from edit_marker_in_range [OF h, of _ ?s "ClickDelete 0 True"] h l n show ?thesis by blast
qed

subsection \<open>Indices outside the store\<close>




subsection \<open>Escaping\<close>

lemma replaceAll_concat:
  "replaceAll p r (concat (map f s)) = concat (map (\<lambda>c. replaceAll p r (f c)) s)"
  by (induction s) (simp_all add: replaceAll_def)

lemma replaceAll_as_concat: "replaceAll p r s = concat (map (\<lambda>c. replaceAll p r [c]) s)"
  by (simp add: replaceAll_def)

lemma escape_one:
  "replaceAll (ch CHR 0x27) (js ''&#039;'')
    (replaceAll dquote (js ''&quot;'')
    (replaceAll (ch CHR ''>'') (js ''&gt;'')
    (replaceAll (ch CHR ''<'') (js ''&lt;'')
    (replaceAll (ch CHR ''&'') (js ''&amp;'') [c])))) = escape_char c"
  by (simp add: replaceAll_def escape_char_def js_def ch_def dquote_def)

lemma escapeHtml_concat: "escapeHtml s = concat (map escape_char s)"
proof -
  have "escapeHtml s =
    concat (map (\<lambda>c. replaceAll (ch CHR 0x27) (js ''&#039;'')
      (replaceAll dquote (js ''&quot;'')
      (replaceAll (ch CHR ''>'') (js ''&gt;'')
      (replaceAll (ch CHR ''<'') (js ''&lt;'')
      (replaceAll (ch CHR ''&'') (js ''&amp;'') [c]))))) s)"
    unfolding escapeHtml_def
    by (subst replaceAll_as_concat [of "ch CHR ''&''"]) (simp only: replaceAll_concat)
  then show ?thesis by (simp add: escape_one)
qed

lemma amp_ok_escape_char: "amp_ok w \<Longrightarrow> amp_ok (escape_char c @ w)"
  by (simp add: escape_char_def entity_tails_def js_def ch_def dquote_def)

lemma amp_ok_escapeHtml: "amp_ok (escapeHtml s)"
  unfolding escapeHtml_concat
  by (induction s) (simp_all add: amp_ok_escape_char)

lemma amp_ok_split:
  "amp_ok w \<Longrightarrow> w = u @ ch CHR ''&'' # v \<Longrightarrow> \<exists>t\<in>set entity_tails. take (length t) v = t"
  by (induction u arbitrary: w) auto

lemma escape_char_safe:
  "ch CHR ''<'' \<notin> set (escape_char c) \<and> ch CHR ''>'' \<notin> set (escape_char c)
   \<and> dquote \<notin> set (escape_char c) \<and> ch CHR 0x27 \<notin> set (escape_char c)"
  by (simp add: escape_char_def js_def ch_def dquote_def)

lemma escapeHtml_safe:
  "ch CHR ''<'' \<notin> set (escapeHtml s) \<and> ch CHR ''>'' \<notin> set (escapeHtml s)
   \<and> dquote \<notin> set (escapeHtml s) \<and> ch CHR 0x27 \<notin> set (escapeHtml s)"
  unfolding escapeHtml_concat using escape_char_safe by auto

lemma render_rows_cells:
  "r \<in> set (render_rows k xs) \<Longrightarrow>
   \<exists>x. Some x \<in> set xs \<and> cells r = [escapeHtml (name x), escapeHtml (id_field x),
                                       escapeHtml (email x), escapeHtml (contact x)]"
  by (induction k xs rule: render_rows.induct) auto

lemma decode_escape_char: "decode_entities (escape_char c @ w) = c # decode_entities w"
  by (simp add: escape_char_def js_def ch_def dquote_def)

lemma decode_escapeHtml: "decode_entities (escapeHtml s) = s"
  unfolding escapeHtml_concat
  by (induction s) (simp_all add: decode_escape_char del: decode_entities.simps(2))

text \<open>
  C9. The output of \<open>escapeHtml\<close> is its input with each character replaced by its
  image: one of the five entities \<open>&amp;\<close>, \<open>&lt;\<close>, \<open>&gt;\<close>, \<open>&quot;\<close>,
  \<open>&#039;\<close> for \<open>&\<close>, \<open><\<close>, \<open>>\<close>, the double quote and the single quote, the
  character itself otherwise. Read back with the entities decoded, the output is the
  input. The output contains none of \<open><\<close>, \<open>>\<close>, the double quote and the single
  quote, and each ampersand in it begins one of the five entities. The four texts that
  \<open>renderTable\<close> interpolates into a row are the images under \<open>escapeHtml\<close> of the
  four fields of a record of the store.
\<close>

theorem escaped_text_cannot_inject:
  "escapeHtml s = concat (map escape_char s)
   \<and> decode_entities (escapeHtml s) = s
   \<and> ch CHR ''<'' \<notin> set (escapeHtml s) \<and> ch CHR ''>'' \<notin> set (escapeHtml s)
   \<and> dquote \<notin> set (escapeHtml s) \<and> ch CHR 0x27 \<notin> set (escapeHtml s)
   \<and> (\<forall>u v. escapeHtml s = u @ ch CHR ''&'' # v \<longrightarrow>
         (\<exists>t\<in>set entity_tails. take (length t) v = t))
   \<and> (\<forall>r\<in>set (tbody (renderTable st)).
         \<exists>x. Some x \<in> set (students st)
           \<and> cells r = [escapeHtml (name x), escapeHtml (id_field x),
                        escapeHtml (email x), escapeHtml (contact x)])"
proof (intro conjI allI impI ballI)
  show "escapeHtml s = concat (map escape_char s)" by (rule escapeHtml_concat)
  show "decode_entities (escapeHtml s) = s" by (rule decode_escapeHtml)
next
  fix u v
  assume "escapeHtml s = u @ ch CHR ''&'' # v"
  with amp_ok_escapeHtml [of s] show "\<exists>t\<in>set entity_tails. take (length t) v = t"
    by (rule amp_ok_split)
next
  fix r
  assume "r \<in> set (tbody (renderTable st))"
  then show "\<exists>x. Some x \<in> set (students st)
           \<and> cells r = [escapeHtml (name x), escapeHtml (id_field x),
                        escapeHtml (email x), escapeHtml (contact x)]"
    by (simp add: renderTable_def render_rows_cells)
qed (simp_all add: escapeHtml_safe)

lemma escape_sample: "escapeHtml (js ''<a '' @ dquote # js ''>&'') = js ''&lt;a &quot;&gt;&amp;''"
  by (simp add: escapeHtml_def replaceAll_def js_def ch_def dquote_def)

lemma render_sample:
  "map cells (tbody (renderTable (page [Some (ann\<lparr>name := js ''<a '' @ dquote # js ''>&''\<rparr>)] None ann)))
     = [[js ''&lt;a &quot;&gt;&amp;'', js ''123'', js ''a@b.com'', js ''1234567890'']]"
  by (simp add: renderTable_def page_def ann_def escapeHtml_def replaceAll_def js_def ch_def
      dquote_def)

theorem escaped_text_cannot_inject_witness:
  "escapeHtml (js ''<a '' @ dquote # js ''>&'') = js ''&lt;a &quot;&gt;'' @ ch CHR ''&'' # js ''amp;''
   \<and> concat (map escape_char (js ''<a '' @ dquote # js ''>&'')) = js ''&lt;a &quot;&gt;&amp;''
   \<and> decode_entities (js ''&lt;a &quot;&gt;&amp;'') = js ''<a '' @ dquote # js ''>&''
   \<and> ch CHR ''<'' \<notin> set (escapeHtml (js ''<a '' @ dquote # js ''>&''))
   \<and> dquote \<notin> set (escapeHtml (js ''<a '' @ dquote # js ''>&''))
   \<and> (\<exists>t\<in>set entity_tails. take (length t) (js ''amp;'') = t)
   \<and> map cells (tbody (renderTable
         (page [Some (ann\<lparr>name := js ''<a '' @ dquote # js ''>&''\<rparr>)] None ann)))
       = [[js ''&lt;a &quot;&gt;&amp;'', js ''123'', js ''a@b.com'', js ''1234567890'']]"
proof -
  let ?s = "js ''<a '' @ dquote # js ''>&''"
  have e: "escapeHtml ?s = js ''&lt;a &quot;&gt;'' @ ch CHR ''&'' # js ''amp;''"
    using escape_sample by (simp add: js_def)
  have e': "escapeHtml ?s = js ''&lt;a &quot;&gt;&amp;''" by (rule escape_sample)
  note t = escaped_text_cannot_inject [of ?s]
  from t have a: "escapeHtml ?s = concat (map escape_char ?s)" by (rule conjunct1)
  have 1: "concat (map escape_char ?s) = js ''&lt;a &quot;&gt;&amp;''"
    unfolding a [symmetric] by (rule e')
  from t have b: "decode_entities (escapeHtml ?s) = ?s" by blast
  have 2: "decode_entities (js ''&lt;a &quot;&gt;&amp;'') = ?s"
    using b unfolding e' .
  from t e have 3: "ch CHR ''<'' \<notin> set (escapeHtml ?s) \<and> dquote \<notin> set (escapeHtml ?s)
      \<and> (\<exists>t\<in>set entity_tails. take (length t) (js ''amp;'') = t)"
    by blast
  from e 1 2 3 render_sample show ?thesis by blast
qed

subsection \<open>The language of a pattern\<close>

lemma nullable_lang: "nullable r \<longleftrightarrow> [] \<in> lang r"
  by (induction r) (auto simp: conc_def intro: star_empty)

lemma cons_in_conc:
  "c # w \<in> conc A B \<longleftrightarrow>
     ([] \<in> A \<and> c # w \<in> B) \<or> (\<exists>u v. w = u @ v \<and> c # u \<in> A \<and> v \<in> B)"
proof
  assume "c # w \<in> conc A B"
  then obtain u v where uv: "c # w = u @ v" "u \<in> A" "v \<in> B"
    by (auto simp: conc_def)
  show "([] \<in> A \<and> c # w \<in> B) \<or> (\<exists>u v. w = u @ v \<and> c # u \<in> A \<and> v \<in> B)"
  proof (cases u)
    case Nil
    with uv show ?thesis by simp
  next
    case (Cons a u')
    with uv have "w = u' @ v" "c # u' \<in> A" by simp_all
    with uv show ?thesis by blast
  qed
next
  assume "([] \<in> A \<and> c # w \<in> B) \<or> (\<exists>u v. w = u @ v \<and> c # u \<in> A \<and> v \<in> B)"
  then show "c # w \<in> conc A B"
  proof
    assume "[] \<in> A \<and> c # w \<in> B"
    then have "c # w = [] @ (c # w) \<and> [] \<in> A \<and> c # w \<in> B" by simp
    then show ?thesis unfolding conc_def by blast
  next
    assume "\<exists>u v. w = u @ v \<and> c # u \<in> A \<and> v \<in> B"
    then obtain u v where "w = u @ v" "c # u \<in> A" "v \<in> B" by blast
    then have "c # w = (c # u) @ v \<and> c # u \<in> A \<and> v \<in> B" by simp
    then show ?thesis unfolding conc_def by blast
  qed
qed

lemma star_cons_split:
  assumes "x \<in> star A" and "x = c # w"
  shows "\<exists>u v. w = u @ v \<and> c # u \<in> A \<and> v \<in> star A"
  using assms
proof (induction arbitrary: w rule: star.induct)
  case star_empty
  then show ?case by simp
next
  case (star_more u v)
  show ?case
  proof (cases u)
    case Nil
    with star_more show ?thesis by simp
  next
    case (Cons a u')
    with star_more.prems have "w = u' @ v" "a = c" by simp_all
    with Cons star_more.hyps show ?thesis by blast
  qed
qed

lemma cons_in_star:
  "c # w \<in> star A \<longleftrightarrow> (\<exists>u v. w = u @ v \<and> c # u \<in> A \<and> v \<in> star A)"
proof
  assume "c # w \<in> star A"
  then show "\<exists>u v. w = u @ v \<and> c # u \<in> A \<and> v \<in> star A"
    by (rule star_cons_split) simp
next
  assume "\<exists>u v. w = u @ v \<and> c # u \<in> A \<and> v \<in> star A"
  then obtain u v where uv: "w = u @ v" "c # u \<in> A" "v \<in> star A" by blast
  then have "(c # u) @ v \<in> star A" by (intro star_more)
  with uv show "c # w \<in> star A" by simp
qed

lemma deriv_lang: "w \<in> lang (deriv c r) \<longleftrightarrow> c # w \<in> lang r"
proof (induction r arbitrary: w)
  case (Then r s)
  then show ?case
    by (auto simp: cons_in_conc nullable_lang) (auto simp: conc_def)
next
  case (Many r)
  then show ?case
    by (auto simp: cons_in_star) (auto simp: conc_def)
qed auto

lemma derivs_lang: "w \<in> lang (derivs r s) \<longleftrightarrow> s @ w \<in> lang r"
  by (induction s arbitrary: r) (simp_all add: deriv_lang)

lemma regex_test_lang: "regex_test r s \<longleftrightarrow> s \<in> lang r"
  by (simp add: regex_test_def nullable_lang derivs_lang)

lemma star_singletons:
  "star {w. \<exists>c. w = [c] \<and> P c} = {w. \<forall>c\<in>set w. P c}" (is "star ?A = ?B")
proof (rule set_eqI)
  fix w
  show "w \<in> star ?A \<longleftrightarrow> w \<in> ?B"
  proof
    assume "w \<in> star ?A"
    then show "w \<in> ?B" by (induction rule: star.induct) auto
  next
    assume "w \<in> ?B"
    then show "w \<in> star ?A"
    proof (induction w)
      case Nil
      show ?case by (rule star_empty)
    next
      case (Cons a w)
      then have "[a] \<in> ?A" "w \<in> star ?A" by simp_all
      then have "[a] @ w \<in> star ?A" by (rule star_more)
      then show ?case by simp
    qed
  qed
qed

lemma conc_singletons:
  "w \<in> conc {w. \<exists>c. w = [c] \<and> P c} B \<longleftrightarrow> (\<exists>c v. w = c # v \<and> P c \<and> v \<in> B)"
proof
  assume "w \<in> conc {w. \<exists>c. w = [c] \<and> P c} B"
  then show "\<exists>c v. w = c # v \<and> P c \<and> v \<in> B" by (auto simp: conc_def)
next
  assume "\<exists>c v. w = c # v \<and> P c \<and> v \<in> B"
  then obtain c v where "w = [c] @ v" "P c" "v \<in> B" by auto
  then show "w \<in> conc {w. \<exists>c. w = [c] \<and> P c} B" unfolding conc_def by blast
qed

lemma lang_OneOrMore_Bracket:
  "w \<in> lang (OneOrMore (Bracket cs)) \<longleftrightarrow> w \<noteq> [] \<and> (\<forall>c\<in>set w. list_ex (in_cclass c) cs)"
  by (cases w) (auto simp: OneOrMore_def star_singletons conc_singletons)

lemma lang_OneOrMore_NegBracket:
  "w \<in> lang (OneOrMore (NegBracket cs)) \<longleftrightarrow>
     w \<noteq> [] \<and> (\<forall>c\<in>set w. \<not> list_ex (in_cclass c) cs)"
  by (cases w) (auto simp: OneOrMore_def star_singletons conc_singletons)

lemma lang_AtLeast_Bracket:
  "w \<in> lang (AtLeast n (Bracket cs)) \<longleftrightarrow>
     n \<le> length w \<and> (\<forall>c\<in>set w. list_ex (in_cclass c) cs)"
proof (induction n arbitrary: w)
  case 0
  show ?case by (simp add: star_singletons)
next
  case (Suc n)
  show ?case
    by (cases w) (auto simp: conc_singletons Suc.IH)
qed

lemma lang_Then_Lit:
  "w \<in> lang (Then (Lit d) r) \<longleftrightarrow> (\<exists>v. w = d # v \<and> v \<in> lang r)"
  by (auto simp: conc_def)

lemma lang_Then: "w \<in> lang (Then r s) \<longleftrightarrow> (\<exists>u v. w = u @ v \<and> u \<in> lang r \<and> v \<in> lang s)"
  by (simp add: conc_def)

subsection \<open>The validator\<close>

lemma name_re_iff: "regex_test name_re s \<longleftrightarrow> letters_and_spaces s"
  by (simp add: regex_test_lang name_re_def lang_OneOrMore_Bracket letters_and_spaces_def
      is_letter_def)

lemma id_re_iff: "regex_test id_re s \<longleftrightarrow> digits_only s"
  by (simp add: regex_test_lang id_re_def lang_OneOrMore_Bracket digits_only_def is_digit_def)

lemma contact_re_iff: "regex_test contact_re s \<longleftrightarrow> ten_or_more_digits s"
  by (simp add: regex_test_lang contact_re_def lang_AtLeast_Bracket ten_or_more_digits_def
      is_digit_def)

lemma lang_OneOrMore_NegBracket_Then:
  "w \<in> lang (Then (OneOrMore (NegBracket cs)) r) \<longleftrightarrow>
     (\<exists>u v. w = u @ v \<and> u \<noteq> [] \<and> (\<forall>c\<in>set u. \<not> list_ex (in_cclass c) cs) \<and> v \<in> lang r)"
  by (simp add: conc_def lang_OneOrMore_NegBracket)

lemma email_re_iff: "regex_test email_re s \<longleftrightarrow> email_shape s"
proof -
  have "s \<in> lang email_re \<longleftrightarrow>
    (\<exists>a v. s = a @ v \<and> a \<noteq> [] \<and> (\<forall>x\<in>set a. plain x) \<and>
      (\<exists>v'. v = ch CHR ''@'' # v' \<and>
        (\<exists>b w. v' = b @ w \<and> b \<noteq> [] \<and> (\<forall>x\<in>set b. plain x) \<and>
          (\<exists>c. w = ch CHR ''.'' # c \<and> c \<noteq> [] \<and> (\<forall>x\<in>set c. plain x)))))"
    unfolding email_re_def
    by (simp only: lang_OneOrMore_NegBracket_Then lang_Then_Lit lang_OneOrMore_NegBracket)
      (simp add: plain_def)
  also have "\<dots> \<longleftrightarrow> email_shape s"
    unfolding email_shape_def by (simp; blast)
  finally show ?thesis by (simp add: regex_test_lang)
qed

text \<open>
  Read with exactly one \<open>@\<close> in the whole address, the shape of the claim is the shape of
  the pattern.
\<close>

lemma email_shape_one_at:
  "email_shape s \<longleftrightarrow> email_shape_claimed s \<and> length (filter (\<lambda>c. c = ch CHR ''@'') s) = 1"
proof
  assume "email_shape s"
  then obtain a b c where s: "s = a @ ch CHR ''@'' # b @ ch CHR ''.'' # c"
    and a: "a \<noteq> []" "\<forall>x\<in>set a. plain x" and b: "b \<noteq> []" "\<forall>x\<in>set b. plain x"
    and c: "c \<noteq> []" "\<forall>x\<in>set c. plain x"
    unfolding email_shape_def by blast
  from a b c have n: "filter (\<lambda>c. c = ch CHR ''@'') a = []" "filter (\<lambda>c. c = ch CHR ''@'') b = []"
    "filter (\<lambda>c. c = ch CHR ''@'') c = []"
    by (auto simp: plain_def filter_empty_conv)
  from c have "\<forall>x\<in>set c. \<not> is_ws x" by (simp add: plain_def)
  with s a b c have "email_shape_claimed s" unfolding email_shape_claimed_def by blast
  moreover from s n have "length (filter (\<lambda>c. c = ch CHR ''@'') s) = 1"
    by (simp add: ch_def)
  ultimately show "email_shape_claimed s \<and> length (filter (\<lambda>c. c = ch CHR ''@'') s) = 1" ..
next
  assume h: "email_shape_claimed s \<and> length (filter (\<lambda>c. c = ch CHR ''@'') s) = 1"
  then obtain a b c where s: "s = a @ ch CHR ''@'' # b @ ch CHR ''.'' # c"
    and a: "a \<noteq> []" "\<forall>x\<in>set a. plain x" and b: "b \<noteq> []" "\<forall>x\<in>set b. plain x"
    and c: "c \<noteq> []" "\<forall>x\<in>set c. \<not> is_ws x"
    unfolding email_shape_claimed_def by blast
  from h s have "length (filter (\<lambda>c. c = ch CHR ''@'') c) = 0"
    by (simp add: ch_def)
  then have "\<forall>x\<in>set c. x \<noteq> ch CHR ''@''" by (simp add: filter_empty_conv)
  with c have "\<forall>x\<in>set c. plain x" by (simp add: plain_def)
  with s a b c show "email_shape s" unfolding email_shape_def by blast
qed

text \<open>
  \<open>trim\<close> removes whitespace at the two ends and nothing else: the input is whitespace,
  the trimmed string, whitespace; and a trimmed string neither starts nor ends with
  whitespace.
\<close>

lemma trim_split:
  "dropWhile is_ws s = trim s @ rev (takeWhile is_ws (rev (dropWhile is_ws s)))"
proof -
  let ?t = "dropWhile is_ws s"
  have "trim s @ rev (takeWhile is_ws (rev ?t)) =
      rev (takeWhile is_ws (rev ?t) @ dropWhile is_ws (rev ?t))"
    by (simp only: trim_def rev_append)
  also have "\<dots> = ?t"
    by (simp only: takeWhile_dropWhile_id rev_rev_ident)
  finally show ?thesis by simp
qed

lemma trim_decompose:
  "\<exists>l r. s = l @ trim s @ r \<and> (\<forall>c\<in>set l. is_ws c) \<and> (\<forall>c\<in>set r. is_ws c)"
proof -
  let ?t = "dropWhile is_ws s"
  have "s = takeWhile is_ws s @ ?t" by simp
  with trim_split [of s]
  have 1: "s = takeWhile is_ws s @ trim s @ rev (takeWhile is_ws (rev ?t))" by simp
  have 3: "\<forall>c\<in>set (takeWhile is_ws s). is_ws c" by (auto dest: set_takeWhileD)
  have 4: "\<forall>c\<in>set (rev (takeWhile is_ws (rev ?t))). is_ws c" by (auto dest: set_takeWhileD)
  from 1 3 4 show ?thesis by blast
qed

lemma trim_ends:
  assumes "trim s \<noteq> []"
  shows "\<not> is_ws (hd (trim s)) \<and> \<not> is_ws (last (trim s))"
proof -
  let ?t = "dropWhile is_ws s"
  let ?u = "dropWhile is_ws (rev ?t)"
  from assms have u: "?u \<noteq> []" by (simp add: trim_def)
  then have "\<not> is_ws (hd ?u)" by (rule hd_dropWhile)
  with u have l: "\<not> is_ws (last (trim s))" by (simp add: trim_def last_rev)
  from assms trim_split [of s] have t: "?t \<noteq> []" by (metis append_is_Nil_conv)
  then have h: "\<not> is_ws (hd ?t)" by (rule hd_dropWhile)
  from assms trim_split [of s] have "hd ?t = hd (trim s)" by (metis hd_append2)
  with h l show ?thesis by simp
qed

lemma reason_message_inject: "reason_message r = reason_message r' \<Longrightarrow> r = r'"
  by (cases r; cases r') (simp_all add: js_def ch_def)

text \<open>
  C1, amended. \<open>validateForm\<close> is the ordered validator: it trims the four inputs and
  applies, in this order and stopping at the first that fails, the checks for an empty
  field, the name (one or more letters or spaces), the id (one or more digits), the email
  (one or more plain characters, \<open>@\<close>, one or more plain characters, a dot, one or more
  plain characters, where plain is neither whitespace nor \<open>@\<close>) and the contact (ten or
  more digits); it returns the message of the failed check, each check having a message of
  its own, or else the four trimmed fields.
\<close>

theorem validateForm_ordered_checks:
  "fst (validateForm st) =
     map_sum reason_message (\<lambda>v. v)
       (ordered_checks email_shape (nameInput st) (idInput st) (emailInput st) (contactInput st))
   \<and> (\<forall>r r'. reason_message r = reason_message r' \<longrightarrow> r = r')"
  by (auto simp: validateForm_def fail_def Let_def ordered_checks_def name_re_iff id_re_iff
      email_re_iff contact_re_iff dest: reason_message_inject)

lemma trim_samples:
  "trim (js ''Ann Lee'') = js ''Ann Lee''"
  "trim (js ''123'') = js ''123''"
  "trim (js ''a@b.com'') = js ''a@b.com''"
  "trim (js ''a@b.c@d'') = js ''a@b.c@d''"
  "trim (js ''1234567890'') = js ''1234567890''"
  by (simp_all add: trim_def js_def ch_def is_ws_def)

lemma checks_samples:
  "letters_and_spaces (js ''Ann Lee'')"
  "digits_only (js ''123'')"
  "ten_or_more_digits (js ''1234567890'')"
  by (simp_all add: letters_and_spaces_def digits_only_def ten_or_more_digits_def
      is_letter_def is_digit_def js_def ch_def)

lemma email_shape_claimed_sample: "email_shape_claimed (js ''a@b.c@d'')"
  unfolding email_shape_claimed_def
  by (rule exI [of _ "js ''a''"], rule exI [of _ "js ''b''"], rule exI [of _ "js ''c@d''"])
    (simp add: js_def ch_def plain_def is_ws_def)

text \<open>
  With the shape of the claim, where the part after the dot is only free of whitespace,
  the address \<open>a@b.c@d\<close> would pass; the pattern of the source rejects it.
\<close>

theorem second_at_sign_rejected:
  "fst (validateForm (page [] None (ann\<lparr>email := js ''a@b.c@d''\<rparr>))) =
     Inl (js ''Please enter a valid email address.'')
   \<and> ordered_checks email_shape_claimed (js ''Ann Lee'') (js ''123'') (js ''a@b.c@d'')
       (js ''1234567890'') = Inr (ann\<lparr>email := js ''a@b.c@d''\<rparr>)"
proof
  show "fst (validateForm (page [] None (ann\<lparr>email := js ''a@b.c@d''\<rparr>))) =
     Inl (js ''Please enter a valid email address.'')"
    by (simp add: page_def ann_def eval_simps)
  have "js ''Ann Lee'' \<noteq> [] \<and> js ''123'' \<noteq> [] \<and> js ''a@b.c@d'' \<noteq> [] \<and> js ''1234567890'' \<noteq> []"
    by (simp add: js_def)
  then show "ordered_checks email_shape_claimed (js ''Ann Lee'') (js ''123'') (js ''a@b.c@d'')
       (js ''1234567890'') = Inr (ann\<lparr>email := js ''a@b.c@d''\<rparr>)"
    by (simp add: ordered_checks_def trim_samples checks_samples email_shape_claimed_sample
        ann_def)
qed

lemma validate_nine_digits:
  "fst (validateForm (page xs ei (ann\<lparr>contact := js ''123456789''\<rparr>))) =
     Inl (js ''Contact number must be at least 10 digits (numbers only).'')"
  by (simp add: page_def ann_def eval_simps)

theorem validateForm_ordered_checks_witness:
  "fst (validateForm (page [] None ann)) = Inr ann
   \<and> ordered_checks email_shape (js ''Ann Lee'') (js ''123'') (js ''a@b.com'') (js ''1234567890'')
       = Inr ann
   \<and> ordered_checks email_shape (js ''Ann Lee'') (js ''123'') (js ''a@b.com'') (js ''123456789'')
       = Inl InvalidContact
   \<and> ordered_checks email_shape (js ''Bob'') (js ''7'') (js ''bob@x.org'') (js ''123456789012345'')
       = Inr bob"
proof -
  let ?ok = "page [] None ann"
  let ?bad = "page [] None (ann\<lparr>contact := js ''123456789''\<rparr>)"
  let ?long = "page [] None bob"
  have v: "fst (validateForm ?ok) = Inr ann" by (simp add: validate_ann)
  have r: "fst (validateForm ?bad) = Inl (reason_message InvalidContact)"
    by (simp add: validate_nine_digits)
  have w: "fst (validateForm ?long) = Inr bob" by (simp add: validate_bob)
  from validateForm_ordered_checks [of ?ok] v
  have 1: "ordered_checks email_shape (js ''Ann Lee'') (js ''123'') (js ''a@b.com'')
      (js ''1234567890'') = Inr ann"
    by (cases "ordered_checks email_shape (js ''Ann Lee'') (js ''123'') (js ''a@b.com'')
      (js ''1234567890'')") (simp_all add: page_def ann_def)
  from validateForm_ordered_checks [of ?bad] r
  have 2: "ordered_checks email_shape (js ''Ann Lee'') (js ''123'') (js ''a@b.com'')
      (js ''123456789'') = Inl InvalidContact"
    by (cases "ordered_checks email_shape (js ''Ann Lee'') (js ''123'') (js ''a@b.com'')
      (js ''123456789'')") (simp_all add: page_def ann_def)
  from validateForm_ordered_checks [of ?long] w
  have 3: "ordered_checks email_shape (js ''Bob'') (js ''7'') (js ''bob@x.org'')
      (js ''123456789012345'') = Inr bob"
    by (cases "ordered_checks email_shape (js ''Bob'') (js ''7'') (js ''bob@x.org'')
      (js ''123456789012345'')") (simp_all add: page_def bob_def)
  from v 1 2 3 show ?thesis by simp
qed

section \<open>Reading back what was saved\<close>

subsection \<open>Strings\<close>

text \<open>The four hexadecimal digits of an escape give the code unit back.\<close>

lemma nibbles_of_nat:
  fixes x :: nat
  shows "((x div 4096 * 16 + x div 256 mod 16) * 16 + x div 16 mod 16) * 16 + x mod 16 = x"
proof -
  have a: "x div 4096 = x div 256 div 16" by (simp add: div_mult2_eq [symmetric])
  have b: "x div 256 = x div 16 div 16" by (simp add: div_mult2_eq [symmetric])
  have "x div 4096 * 16 + x div 256 mod 16 = x div 256"
    unfolding a by (rule div_mult_mod_eq)
  moreover have "x div 256 * 16 + x div 16 mod 16 = x div 16"
    unfolding b by (rule div_mult_mod_eq)
  moreover have "x div 16 * 16 + x mod 16 = x"
    by (rule div_mult_mod_eq)
  ultimately show ?thesis by simp
qed

lemma nibbles_compose:
  fixes c :: jschar
  shows "of_nat (((unat c div 4096 * 16 + unat c div 256 mod 16) * 16 + unat c div 16 mod 16) * 16
           + unat c mod 16) = c"
  by (simp only: nibbles_of_nat) simp

lemma unat_div_4096: "unat (c :: jschar) div 4096 < 16"
proof -
  have "unat c < 2 ^ LENGTH(16)" by (rule unsigned_less)
  then show ?thesis by simp
qed

lemma hex_digit_values:
  "hex_value (hex_digit 0) = Some 0" "hex_value (hex_digit 1) = Some 1"
  "hex_value (hex_digit 2) = Some 2" "hex_value (hex_digit 3) = Some 3"
  "hex_value (hex_digit 4) = Some 4" "hex_value (hex_digit 5) = Some 5"
  "hex_value (hex_digit 6) = Some 6" "hex_value (hex_digit 7) = Some 7"
  "hex_value (hex_digit 8) = Some 8" "hex_value (hex_digit 9) = Some 9"
  "hex_value (hex_digit 10) = Some 10" "hex_value (hex_digit 11) = Some 11"
  "hex_value (hex_digit 12) = Some 12" "hex_value (hex_digit 13) = Some 13"
  "hex_value (hex_digit 14) = Some 14" "hex_value (hex_digit 15) = Some 15"
  by (simp_all add: hex_value_def hex_digit_def js_def ch_def)

lemma hex_value_hex_digit:
  assumes "n < 16"
  shows "hex_value (hex_digit n) = Some n"
proof -
  from assms have "n \<in> set [0, 1, 2, 3, 4, 5, 6, 7, 8, 9, 10, 11, 12, 13, 14, 15]"
    by simp arith
  then show ?thesis
    using hex_digit_values by auto
qed

lemma lex_u_escape:
  assumes "hex_value h1 = Some a" "hex_value h2 = Some b" "hex_value h3 = Some c"
    "hex_value h4 = Some d"
  shows "lex_string (backslash # ch CHR ''u'' # h1 # h2 # h3 # h4 # w) =
         with_char (of_nat (((a * 16 + b) * 16 + c) * 16 + d)) (lex_string w)"
  using assms by (simp add: backslash_def dquote_def ch_def)

lemma lex_unicode_escape: "lex_string (unicode_escape c @ w) = with_char c (lex_string w)"
proof -
  have "lex_string (unicode_escape c @ w) =
      with_char (of_nat (((unat c div 4096 * 16 + unat c div 256 mod 16) * 16
        + unat c div 16 mod 16) * 16 + unat c mod 16)) (lex_string w)"
    unfolding unicode_escape_def append_Cons append_Nil
    by (rule lex_u_escape) (simp_all add: hex_value_hex_digit unat_div_4096)
  then show ?thesis by (simp only: nibbles_compose)
qed

lemma lex_quote_unit: "lex_string (quote_unit c @ w) = with_char c (lex_string w)"
proof -
  consider "c = 0x8" | "c = 0x9" | "c = 0xA" | "c = 0xC" | "c = 0xD" | "c = dquote"
    | "c = backslash"
    | "c \<notin> {0x8, 0x9, 0xA, 0xC, 0xD, dquote, backslash}" "c < 0x20 \<or> is_lead c \<or> is_trail c"
    | "c \<notin> {0x8, 0x9, 0xA, 0xC, 0xD, dquote, backslash}" "\<not> (c < 0x20 \<or> is_lead c \<or> is_trail c)"
    by blast
  then show ?thesis
  proof cases
    case 8
    then have "quote_unit c = unicode_escape c" by (simp add: quote_unit_def)
    then show ?thesis by (simp only: lex_unicode_escape)
  next
    case 9
    then have "quote_unit c = [c]" by (simp add: quote_unit_def)
    with 9 show ?thesis by simp
  qed (simp_all add: quote_unit_def unescape_def backslash_def dquote_def ch_def)
qed

lemma surrogate_not_special:
  fixes c :: jschar
  assumes "is_lead c \<or> is_trail c"
  shows "\<not> c < 0x20 \<and> c \<noteq> 0x5C \<and> c \<noteq> 0x22"
  using assms by (auto simp: is_lead_def is_trail_def word_le_nat_alt word_less_nat_alt)

lemma lex_lead: "is_lead c \<or> is_trail c \<Longrightarrow> lex_string (c # w) = with_char c (lex_string w)"
  using surrogate_not_special [of c] by (simp add: backslash_def dquote_def ch_def)

lemma with_char_map_option:
  "with_char c (map_option (\<lambda>(v, r). (f v, r)) x) = map_option (\<lambda>(v, r). (c # f v, r)) x"
  by (cases x) (auto simp: with_char_def)

lemma lex_quote_chars:
  "lex_string (quote_chars s @ w) = map_option (\<lambda>(v, r). (s @ v, r)) (lex_string w)"
proof (induction s rule: quote_chars.induct)
  case 1
  show ?case by (cases "lex_string w") auto
next
  case (2 c)
  show ?case by (cases "lex_string w") (auto simp: lex_quote_unit with_char_def)
next
  case (3 c d cs)
  show ?case
  proof (cases "is_lead c \<and> is_trail d")
    case True
    then have "quote_chars (c # d # cs) = c # d # quote_chars cs" by simp
    with True 3 show ?thesis
      by (simp add: lex_lead with_char_map_option del: lex_string.simps quote_chars.simps)
  next
    case False
    then have "quote_chars (c # d # cs) = quote_unit c @ quote_chars (d # cs)" by auto
    with False 3 show ?thesis
      by (simp add: lex_quote_unit with_char_map_option del: lex_string.simps quote_chars.simps)
  qed
qed

lemma lex_JSON_quote: "lex_string (quote_chars s @ dquote # rest) = Some (s, rest)"
  by (simp add: lex_quote_chars)

subsection \<open>Tokens\<close>

lemma tokenize_punct:
  "tokenize (ch CHR ''{'' # rest) = with_token TLBrace (tokenize rest)"
  "tokenize (ch CHR ''}'' # rest) = with_token TRBrace (tokenize rest)"
  "tokenize (ch CHR ''['' # rest) = with_token TLBracket (tokenize rest)"
  "tokenize (ch CHR '']'' # rest) = with_token TRBracket (tokenize rest)"
  "tokenize (ch CHR '':'' # rest) = with_token TColon (tokenize rest)"
  "tokenize (ch CHR '','' # rest) = with_token TComma (tokenize rest)"
  by (simp_all add: ch_def is_json_ws_def)

lemma tokenize_null: "tokenize (js ''null'' @ rest) = with_token TNull (tokenize rest)"
  by (simp add: js_def ch_def is_json_ws_def dquote_def is_digit_def)

lemma tokenize_quote: "tokenize (JSON_quote s @ rest) = with_token (TString s) (tokenize rest)"
proof -
  have "tokenize (dquote # quote_chars s @ dquote # rest) =
      with_token (TString s) (tokenize rest)"
    by (simp add: lex_JSON_quote) (simp add: dquote_def ch_def is_json_ws_def)
  then show ?thesis by (simp add: JSON_quote_def)
qed

lemma tokenize_student:
  "tokenize (stringify_student r @ rest) = map_option ((@) (student_tokens r)) (tokenize rest)"
  by (cases "tokenize rest")
    (simp_all add: stringify_student_def student_tokens_def tokenize_punct tokenize_quote
      with_token_def del: tokenize.simps)

lemma tokenize_element:
  "tokenize (stringify_element x @ rest) = map_option ((@) (element_tokens x)) (tokenize rest)"
  by (cases x; cases "tokenize rest")
    (simp_all add: stringify_element_def element_tokens_def tokenize_student tokenize_null
      with_token_def del: tokenize.simps)

lemma tokenize_join:
  "tokenize (join_comma (map stringify_element xs) @ rest) =
     map_option ((@) (join_tokens xs)) (tokenize rest)"
proof (induction xs rule: join_tokens.induct)
  case 1
  show ?case by (cases "tokenize rest") simp_all
next
  case (2 x)
  show ?case by (simp add: tokenize_element del: tokenize.simps)
next
  case (3 x y ys)
  then show ?case
    by (cases "tokenize rest")
      (simp_all add: tokenize_element tokenize_punct with_token_def del: tokenize.simps)
qed

lemma tokenize_stringify:
  "tokenize (JSON_stringify xs) = Some (TLBracket # join_tokens xs @ [TRBracket])"
proof -
  have "tokenize [ch CHR '']''] = Some [TRBracket]"
    by (simp only: tokenize_punct tokenize.simps(1) with_token_def option.case)
  then show ?thesis
    by (simp add: JSON_stringify_def tokenize_punct tokenize_join with_token_def
        del: tokenize.simps)
qed

subsection \<open>Parsing the tokens\<close>

lemma run_append:
  "run cfg (ts @ us) = (case run cfg ts of None \<Rightarrow> None | Some cfg' \<Rightarrow> run cfg' us)"
  by (induction ts arbitrary: cfg) (auto split: option.splits)

lemma run_element:
  "run (Value, FArr es # stk) (element_tokens x) = Some (Next, FArr (es @ [element_val x]) # stk)"
  by (cases x)
    (simp_all add: element_tokens_def student_tokens_def element_val_def student_val_def
      read_key_def read_comma_def close_object_def)

lemma run_join:
  "xs \<noteq> [] \<Longrightarrow>
   run (Value, FArr es # stk) (join_tokens xs) = Some (Next, FArr (es @ map element_val xs) # stk)"
proof (induction xs arbitrary: es rule: join_tokens.induct)
  case 1
  then show ?case by simp
next
  case (2 x)
  show ?case by (simp add: run_element)
next
  case (3 x y ys)
  then show ?case
    by (simp add: run_append run_element read_comma_def)
qed

lemma element_tokens_head: "\<exists>t ts. element_tokens x = t # ts \<and> t \<noteq> TRBracket"
  by (cases x) (simp_all add: element_tokens_def student_tokens_def)

lemma join_tokens_head: "xs \<noteq> [] \<Longrightarrow> \<exists>t ts. join_tokens xs = t # ts \<and> t \<noteq> TRBracket"
proof (cases xs rule: join_tokens.cases)
  case 1
  assume "xs \<noteq> []"
  with 1 show ?thesis by simp
next
  case (2 x)
  with element_tokens_head [of x] show ?thesis by simp
next
  case (3 x y ys)
  with element_tokens_head [of x] show ?thesis by auto
qed

lemma run_first:
  assumes "xs \<noteq> []"
  shows "run (ValueOrClose, stk) (join_tokens xs @ ts) = run (Value, stk) (join_tokens xs @ ts)"
proof -
  from join_tokens_head [OF assms] obtain t ts' where "join_tokens xs = t # ts'" "t \<noteq> TRBracket"
    by blast
  then show ?thesis by simp
qed

lemma parse_stringify: "JSON_parse (JSON_stringify xs) = Some (JArr (map element_val xs))"
proof (cases "xs = []")
  case True
  then show ?thesis
    by (simp add: JSON_parse_def tokenize_stringify close_array_def)
next
  case False
  have "run (ValueOrClose, [FArr []]) (join_tokens xs @ [TRBracket]) =
      run (Value, [FArr []]) (join_tokens xs @ [TRBracket])"
    by (rule run_first [OF False])
  also have "\<dots> = Some (Done (JArr (map element_val xs)), [])"
    by (simp add: run_append run_join [OF False] close_array_def)
  finally show ?thesis
    by (simp add: JSON_parse_def tokenize_stringify)
qed

lemma as_student_val: "as_student (student_val r) = Some r"
  by (simp add: as_student_def student_val_def string_property_def property_def js_def ch_def)

lemma stringify_not_empty: "JSON_stringify xs \<noteq> []"
  by (simp add: JSON_stringify_def)

lemma load_saved:
  "loadStudents (ReadString (JSON_stringify xs)) = JArr (map element_val xs)"
  by (simp add: loadStudents_def stringify_not_empty parse_stringify)

lemma as_students_saved:
  "as_students (loadStudents (ReadString (JSON_stringify (map Some rs)))) = Some (map Some rs)"
proof -
  have "those (map as_student (map element_val (map Some rs))) = Some rs"
    by (induction rs) (simp_all add: element_val_def as_student_val)
  then show ?thesis
    by (simp add: load_saved as_students_def)
qed

subsection \<open>Save, then load\<close>

text \<open>
  C5. After \<open>saveStudents\<close> on a store of records \<open>rs\<close>, a fresh \<open>loadStudents\<close> returns the
  array of their objects: as many elements, in the same order, each with the \<open>name\<close>,
  \<open>id\<close>, \<open>email\<close> and \<open>contact\<close> of its record; read as students, it is \<open>rs\<close>.
\<close>

theorem save_then_load:
  "loadStudents (getItem (saveStudents (st\<lparr>students := map Some rs\<rparr>))) = JArr (map student_val rs)
   \<and> as_students (loadStudents (getItem (saveStudents (st\<lparr>students := map Some rs\<rparr>))))
       = Some (map Some rs)"
proof -
  have g: "getItem (saveStudents (st\<lparr>students := map Some rs\<rparr>))
      = ReadString (JSON_stringify (map Some rs))"
    by (simp add: getItem_def saveStudents_def)
  have e: "map element_val (map Some rs) = map student_val rs"
    by (simp add: element_val_def)
  have "loadStudents (getItem (saveStudents (st\<lparr>students := map Some rs\<rparr>)))
      = JArr (map element_val (map Some rs))"
    by (simp only: g load_saved)
  then have 1: "loadStudents (getItem (saveStudents (st\<lparr>students := map Some rs\<rparr>)))
      = JArr (map student_val rs)"
    by (simp only: e)
  have 2: "as_students (loadStudents (getItem (saveStudents (st\<lparr>students := map Some rs\<rparr>))))
      = Some (map Some rs)"
    by (simp only: g as_students_saved)
  from 1 2 show ?thesis by (rule conjI)
qed

lemma stringify_ann:
  "JSON_stringify [Some ann] =
     js ''[{\"name\":\"Ann Lee\",\"id\":\"123\",\"email\":\"a@b.com\",\"contact\":\"1234567890\"}]''"
  by (simp add: JSON_stringify_def stringify_element_def stringify_student_def JSON_quote_def
      quote_unit_def is_lead_def is_trail_def ann_def js_def ch_def dquote_def backslash_def)

theorem save_then_load_witness:
  "storage (saveStudents ((page [] None ann)\<lparr>students := map Some [ann]\<rparr>)) =
     Some (js ''[{\"name\":\"Ann Lee\",\"id\":\"123\",\"email\":\"a@b.com\",\"contact\":\"1234567890\"}]'')
   \<and> as_students (loadStudents (getItem (saveStudents
         ((page [] None ann)\<lparr>students := map Some [ann, bob]\<rparr>)))) = Some [Some ann, Some bob]"
proof -
  have 1: "storage (saveStudents ((page [] None ann)\<lparr>students := map Some [ann]\<rparr>)) =
     Some (JSON_stringify [Some ann])"
    by simp
  from save_then_load [where st = "page [] None ann" and rs = "[ann, bob]", THEN conjunct2]
  have 2: "as_students (loadStudents (getItem (saveStudents
         ((page [] None ann)\<lparr>students := map Some [ann, bob]\<rparr>)))) = Some [Some ann, Some bob]"
    by simp
  from 1 2 show ?thesis by (simp only: stringify_ann)
qed

subsection \<open>What a load returns\<close>

text \<open>
  On a value that \<open>as_students\<close> reads as students, the start does not throw.
\<close>

lemma those_Some_iff: "those xs = Some ys \<longleftrightarrow> xs = map Some ys"
  by (induction xs arbitrary: ys) (auto split: option.splits)

lemma as_student_no_throw:
  assumes "as_student x = Some r"
    and "key \<in> set [js ''name'', js ''id'', js ''email'', js ''contact'']"
  shows "\<not> cell_throws x key"
  using assms
  by (auto simp: as_student_def cell_throws_def string_property_def
      split: jsval.splits option.splits)

lemma typed_start_does_not_throw: "as_students v = Some xs \<Longrightarrow> \<not> start_throws v"
proof (cases v)
  case (JArr vs)
  assume "as_students v = Some xs"
  with JArr obtain ys where "those (map as_student vs) = Some ys"
    by (auto simp: as_students_def)
  then have "map as_student vs = map Some ys" by (simp add: those_Some_iff)
  then have "\<forall>x\<in>set vs. \<exists>r. as_student x = Some r"
    by (metis (no_types, lifting) imageE list.set_map image_eqI)
  then have "\<forall>x\<in>set vs. \<forall>key\<in>set [js ''name'', js ''id'', js ''email'', js ''contact''].
      \<not> cell_throws x key"
    using as_student_no_throw by blast
  with JArr show ?thesis by (simp add: start_throws_def list_ex_iff)
qed (simp_all add: as_students_def)

text \<open>
  C4. \<open>loadStudents\<close> returns the empty array when reading the item throws, when there
  is no item, when the item is the empty string and when \<open>JSON.parse\<close> throws. It
  returns whatever else \<open>JSON.parse\<close> returns: the text \<open>null\<close> is valid JSON and is
  loaded as \<open>null\<close>, the text \<open>{}\<close> as an object, the text \<open>[null]\<close> as an array
  that holds \<open>null\<close>. None of the three is a sequence of records, none is the empty
  array, and on each of them the start throws in \<open>renderTable\<close>.
\<close>

theorem load_of_null_is_null:
  "loadStudents (ReadString (js ''null'')) = JNull
   \<and> start_throws (loadStudents (ReadString (js ''null'')))
   \<and> as_students (loadStudents (ReadString (js ''null''))) = None
   \<and> loadStudents (ReadString (js ''{}'')) = JObj []
   \<and> start_throws (loadStudents (ReadString (js ''{}'')))
   \<and> loadStudents (ReadString (js ''[null]'')) = JArr [JNull]
   \<and> start_throws (loadStudents (ReadString (js ''[null]'')))"
  by (simp add: loadStudents_def JSON_parse_def as_students_def start_throws_def cell_throws_def
      js_def ch_def is_json_ws_def dquote_def is_digit_def with_token_def close_object_def
      close_array_def)

lemma load_falls_back:
  "loadStudents ReadThrows = JArr [] \<and> loadStudents ReadNull = JArr []
   \<and> loadStudents (ReadString []) = JArr []
   \<and> (JSON_parse raw = None \<longrightarrow> loadStudents (ReadString raw) = JArr [])
   \<and> \<not> start_throws (JArr [])"
  by (simp add: loadStudents_def start_throws_def)

lemma parse_samples:
  "JSON_parse (js ''[{\"name\":'') = None"
  "JSON_parse (js ''[5, true]'') = Some (JArr [JNum (js ''5''), JBool True])"
  by (simp_all add: JSON_parse_def js_def ch_def is_json_ws_def dquote_def backslash_def
      is_digit_def with_token_def with_char_def close_array_def read_comma_def read_key_def
      lex_number_def lex_sign_def lex_int_def lex_frac_def lex_exp_def)

section \<open>The records of the store\<close>

lemma validateForm_record_ok: "fst (validateForm s) = Inr v \<Longrightarrow> record_ok v"
  by (auto simp: validateForm_def fail_def Let_def record_ok_def name_re_iff id_re_iff
      email_re_iff contact_re_iff split: if_splits)

lemma store_ok_append: "store_ok xs \<Longrightarrow> record_ok v \<Longrightarrow> store_ok (xs @ [Some v])"
  by (auto simp: store_ok_def)

lemma store_ok_assign: "store_ok xs \<Longrightarrow> record_ok v \<Longrightarrow> store_ok (assign xs i v)"
  by (auto simp: store_ok_def assign_def dest: set_update_subset_insert [THEN subsetD])

lemma store_ok_splice1: "store_ok xs \<Longrightarrow> store_ok (splice1 xs i)"
  by (auto simp: store_ok_def splice1_def Let_def dest: in_set_takeD in_set_dropD)

lemma tbody_after [simp]:
  "tbody (resetForm st) = tbody st"
  "tbody (renderTable st) = render_rows 0 (students st)"
  "tbody (saveStudents st) = tbody st"
  "tbody (announce m st) = tbody st"
  by (simp_all add: resetForm_def form_reset_def renderTable_def saveStudents_def announce_def)

lemma as_students_saved_dense:
  assumes "None \<notin> set xs"
  shows "as_students (loadStudents (ReadString (JSON_stringify xs))) = Some xs"
proof -
  from assms have "xs = map Some (map the xs)"
    by (induction xs) auto
  then show ?thesis using as_students_saved [of "map the xs"] by simp
qed

lemma getItem_after [simp]:
  "getItem (resetForm st) = getItem st"
  "getItem (renderTable st) = getItem st"
  "getItem (saveStudents st) = ReadString (JSON_stringify (students st))"
  "getItem (announce m st) = getItem st"
  "getItem (st\<lparr>formMsg := m\<rparr>) = getItem st"
  by (simp_all add: getItem_def)

lemma saved_in_step:
  assumes "store_ok xs" and "None \<notin> set xs"
  shows "in_step (resetForm (renderTable (saveStudents (announce m (s\<lparr>students := xs\<rparr>)))))"
  using assms by (simp add: in_step_def edit_ok_def as_students_saved_dense)

lemma dense_assign: "None \<notin> set xs \<Longrightarrow> i < length xs \<Longrightarrow> None \<notin> set (assign xs i v)"
  by (auto simp: assign_def dest: set_update_subset_insert [THEN subsetD])

lemma dense_splice1: "None \<notin> set xs \<Longrightarrow> None \<notin> set (splice1 xs i)"
  by (auto simp: splice1_def Let_def dest: in_set_takeD in_set_dropD)

lemma in_step_submit: "in_step s \<Longrightarrow> in_step (submit s)"
proof -
  assume c: "in_step s"
  from validateForm_cases [of s] show ?thesis
  proof
    assume "\<exists>v. validateForm s = (Inr v, s)"
    then obtain v where v: "validateForm s = (Inr v, s)" by blast
    then have f: "fst (validateForm s) = Inr v" by simp
    then have r: "record_ok v" by (rule validateForm_record_ok)
    show ?thesis
    proof (cases "editIndex s")
      case None
      show ?thesis
      proof (cases "Some v \<in> set (students s)")
        case True
        with c f None show ?thesis
          by (simp add: submit_duplicate in_step_def edit_ok_def)
      next
        case False
        from c r have "store_ok (students s @ [Some v])" "None \<notin> set (students s @ [Some v])"
          by (simp_all add: in_step_def store_ok_append)
        then show ?thesis
          unfolding submit_add [OF f None False] announce_def
          using saved_in_step [of "students s @ [Some v]"] by (simp add: announce_def)
      qed
    next
      case (Some i)
      with c have "i < length (students s)" by (simp add: in_step_def edit_ok_def)
      with c r have "store_ok (assign (students s) i v)" "None \<notin> set (assign (students s) i v)"
        by (simp_all add: in_step_def store_ok_assign dense_assign)
      then show ?thesis
        unfolding submit_update [OF f Some]
        using saved_in_step [of "assign (students s) i v"] by (simp add: announce_def)
    qed
  next
    assume "\<exists>m. validateForm s = (Inl m, s\<lparr>formMsg := m\<rparr>)"
    then obtain m where "fst (validateForm s) = Inl m" by auto
    with c show ?thesis
      by (simp add: submit_rejected in_step_def edit_ok_def split: option.splits)
  qed
qed

lemma in_step_handle: "in_step s \<Longrightarrow> in_step (handle s e)"
proof (cases e)
  case Submit
  assume "in_step s"
  with Submit show ?thesis by (simp add: in_step_submit)
next
  case (ClickEdit i)
  assume "in_step s"
  with ClickEdit show ?thesis
    by (auto simp: startEdit_def in_step_def edit_ok_def announce_def getItem_def
        dest: element_at_Some split: option.splits)
next
  case (ClickDelete i ok)
  assume c: "in_step s"
  show ?thesis
  proof (cases "element_at (students s) i = None \<or> \<not> ok")
    case True
    with c ClickDelete show ?thesis by (auto simp: deleteRow_def split: option.splits)
  next
    case False
    from c have "store_ok (splice1 (students s) i)" "None \<notin> set (splice1 (students s) i)"
      by (simp_all add: in_step_def store_ok_splice1 dense_splice1)
    then have "in_step (resetForm (renderTable (saveStudents
        (announce [] (s\<lparr>students := splice1 (students s) i\<rparr>)))))"
      by (rule saved_in_step)
    then have "in_step (announce (js ''Record deleted.'') (resetForm (renderTable (saveStudents
        (s\<lparr>students := splice1 (students s) i\<rparr>)))))"
      by (simp add: in_step_def edit_ok_def announce_def resetForm_def form_reset_def
          renderTable_def saveStudents_def getItem_def)
    with False ClickDelete show ?thesis by (auto simp: deleteRow_def split: option.splits)
  qed
next
  case Reset
  assume "in_step s"
  with Reset show ?thesis by (auto simp: in_step_def edit_ok_def split: option.splits)
next
  case (Type a b c d)
  assume "in_step s"
  with Type show ?thesis
    by (auto simp: in_step_def edit_ok_def getItem_def split: option.splits)
qed

lemma in_step_run: "in_step s \<Longrightarrow> in_step (run_events s evs)"
  unfolding run_events_def
  by (induction evs arbitrary: s) (simp_all add: in_step_handle)

lemma as_students_dense: "as_students v = Some xs \<Longrightarrow> None \<notin> set xs"
  by (auto simp: as_students_def split: jsval.splits)

lemma boot_in_step:
  assumes "boot st0 = Some st" and "store_ok (students st)"
  shows "in_step st"
proof -
  from assms(1) obtain xs where l: "as_students (loadStudents (getItem st0)) = Some xs"
    and st: "st = renderTable (st0\<lparr>students := xs, editIndex := None\<rparr>)"
    by (auto simp: boot_def split: option.splits)
  from l have "None \<notin> set xs" by (rule as_students_dense)
  with l st assms(2) show ?thesis
    by (simp add: in_step_def edit_ok_def renderTable_def getItem_def)
qed

text \<open>
  A stored item that the validator never saw is loaded and shown as it is: here a record
  whose four fields all break their constraints.
\<close>

lemma parse_foreign:
  "JSON_parse (js ''[{\"name\":\"<b>\",\"id\":\"x\",\"email\":\"y\",\"contact\":\"1\"}]'') =
     Some (JArr [JObj [(js ''name'', JStr (js ''<b>'')), (js ''id'', JStr (js ''x'')),
                       (js ''email'', JStr (js ''y'')), (js ''contact'', JStr (js ''1''))]])"
  by (simp add: JSON_parse_def js_def ch_def is_json_ws_def dquote_def backslash_def
      is_digit_def with_token_def with_char_def close_array_def close_object_def read_comma_def
      read_key_def)

theorem loaded_record_not_validated:
  "map_option students (boot foreign_page) =
     Some [Some \<lparr>name = js ''<b>'', id_field = js ''x'', email = js ''y'', contact = js ''1''\<rparr>]
   \<and> map_option (map cells \<circ> tbody) (boot foreign_page) =
       Some [[js ''&lt;b&gt;'', js ''x'', js ''y'', js ''1'']]
   \<and> \<not> record_ok \<lparr>name = js ''<b>'', id_field = js ''x'', email = js ''y'', contact = js ''1''\<rparr>"
proof -
  have l: "loadStudents (getItem foreign_page) =
      JArr [JObj [(js ''name'', JStr (js ''<b>'')), (js ''id'', JStr (js ''x'')),
                  (js ''email'', JStr (js ''y'')), (js ''contact'', JStr (js ''1''))]]"
    unfolding foreign_page_def getItem_def loadStudents_def
    by (simp add: parse_foreign) (simp add: js_def)
  have a: "as_students (loadStudents (getItem foreign_page)) =
      Some [Some \<lparr>name = js ''<b>'', id_field = js ''x'', email = js ''y'', contact = js ''1''\<rparr>]"
    unfolding l
    by (simp add: as_students_def as_student_def string_property_def property_def js_def ch_def)
  have e: "escapeHtml (js ''<b>'') = js ''&lt;b&gt;'' \<and> escapeHtml (js ''x'') = js ''x''
      \<and> escapeHtml (js ''y'') = js ''y'' \<and> escapeHtml (js ''1'') = js ''1''"
    by (simp add: escapeHtml_def replaceAll_def js_def ch_def dquote_def)
  have n: "\<not> letters_and_spaces (js ''<b>'')"
    by (simp add: letters_and_spaces_def is_letter_def js_def ch_def)
  from a e n show ?thesis
    by (simp add: boot_def renderTable_def record_ok_def)
qed

text \<open>
  C3, amended. Every record that the validator returns satisfies the four constraints.
  When the stored item is an array of objects whose \<open>name\<close>, \<open>id\<close>, \<open>email\<close> and
  \<open>contact\<close> are strings, in whatever order and among whatever other members, and the
  records so loaded satisfy the constraints, then after every sequence of events the
  records of the store satisfy them, the table shows exactly the records of the store,
  and the records read from the stored item are exactly the records of the store. The
  start itself takes the records of the stored item as they are: loading is a second way
  in which records come into the store.
\<close>

theorem validated_store_stays_valid:
  assumes "boot st0 = Some st" and "store_ok (students st)"
  shows "store_ok (students (run_events st evs))
       \<and> tbody (run_events st evs) = render_rows 0 (students (run_events st evs))
       \<and> as_students (loadStudents (getItem (run_events st evs))) = Some (students (run_events st evs))
       \<and> (\<forall>s v. fst (validateForm s) = Inr v \<longrightarrow> record_ok v)"
proof -
  from assms have "in_step st" by (rule boot_in_step)
  then have "in_step (run_events st evs)" by (rule in_step_run)
  then show ?thesis by (simp add: in_step_def validateForm_record_ok)
qed

lemma record_ok_samples: "record_ok ann" "record_ok bob"
  by (simp_all add: record_ok_def name_re_iff [symmetric] id_re_iff [symmetric]
      email_re_iff [symmetric] contact_re_iff [symmetric] ann_def bob_def eval_simps)

lemma boot_reordered_page:
  "boot reordered_page =
     Some (renderTable (reordered_page\<lparr>students := [Some ann], editIndex := None\<rparr>))"
proof -
  have p: "JSON_parse (js
     ''[{\"id\":\"123\",\"age\":7,\"name\":\"Zed\",\"name\":\"Ann Lee\",\"contact\":\"1234567890\",\"email\":\"a@b.com\"}]'')
     = Some (JArr [JObj [(js ''id'', JStr (js ''123'')), (js ''age'', JNum (js ''7'')),
         (js ''name'', JStr (js ''Zed'')), (js ''name'', JStr (js ''Ann Lee'')),
         (js ''contact'', JStr (js ''1234567890'')), (js ''email'', JStr (js ''a@b.com''))]])"
    by (simp add: JSON_parse_def js_def ch_def is_json_ws_def dquote_def backslash_def
      is_digit_def with_token_def with_char_def close_array_def close_object_def read_comma_def
      read_key_def lex_number_def lex_sign_def lex_int_def lex_frac_def lex_exp_def)
  have l: "loadStudents (getItem reordered_page) =
      JArr [JObj [(js ''id'', JStr (js ''123'')), (js ''age'', JNum (js ''7'')),
         (js ''name'', JStr (js ''Zed'')), (js ''name'', JStr (js ''Ann Lee'')),
         (js ''contact'', JStr (js ''1234567890'')), (js ''email'', JStr (js ''a@b.com''))]]"
    unfolding reordered_page_def getItem_def loadStudents_def
    by (simp add: p) (simp add: js_def)
  have "as_students (loadStudents (getItem reordered_page)) = Some [Some ann]"
    unfolding l
    by (simp add: as_students_def as_student_def string_property_def property_def ann_def
        js_def ch_def)
  then show ?thesis by (simp add: boot_def)
qed

theorem validated_store_stays_valid_witness:
  "boot reordered_page =
     Some (renderTable (reordered_page\<lparr>students := [Some ann], editIndex := None\<rparr>))
   \<and> store_ok (students (renderTable (reordered_page\<lparr>students := [Some ann], editIndex := None\<rparr>)))
   \<and> students (run_events
        (renderTable (reordered_page\<lparr>students := [Some ann], editIndex := None\<rparr>)) [Submit])
       = [Some ann, Some bob]
   \<and> store_ok [Some ann, Some bob]
   \<and> as_students (loadStudents (getItem (run_events
        (renderTable (reordered_page\<lparr>students := [Some ann], editIndex := None\<rparr>)) [Submit])))
       = Some [Some ann, Some bob]"
proof -
  let ?st = "renderTable (reordered_page\<lparr>students := [Some ann], editIndex := None\<rparr>)"
  have s: "store_ok (students ?st)" by (simp add: store_ok_def record_ok_samples)
  have v: "fst (validateForm ?st) = Inr bob"
    by (simp add: reordered_page_def page_def renderTable_def bob_def eval_simps)
  have n: "Some bob \<notin> set (students ?st)" by (simp add: ann_def bob_def js_def ch_def)
  have r: "students (run_events ?st [Submit]) = [Some ann, Some bob]"
    by (simp add: run_events_def submit_add [OF v _ n])
  note t = validated_store_stays_valid [OF boot_reordered_page s, of "[Submit]"]
  from t r have 1: "store_ok [Some ann, Some bob]" by simp
  from t r have 2: "as_students (loadStudents (getItem (run_events ?st [Submit])))
      = Some [Some ann, Some bob]" by simp
  from boot_reordered_page s r 1 2 show ?thesis by blast
qed

section \<open>The scenario of the specification\<close>

text \<open>
  From the empty store: a valid submission adds the record, saves the store, clears the
  form and leaves the button on Add; Edit on the row fills the form and turns the button
  to Update; a submission with the contact \<open>555\<close> is rejected and leaves the store as it
  was; a submission with the contact \<open>9999999999\<close> replaces the record and turns the
  button back to Add.
\<close>

lemma end_to_end_scenario:
  "students (run_events (page [] None ann) [Submit]) = [Some ann]
   \<and> storage (run_events (page [] None ann) [Submit]) = Some (JSON_stringify [Some ann])
   \<and> nameInput (run_events (page [] None ann) [Submit]) = []
   \<and> contactInput (run_events (page [] None ann) [Submit]) = []
   \<and> submitBtn (run_events (page [] None ann) [Submit]) = js ''Add Student''
   \<and> nameInput (run_events (page [] None ann) [Submit, ClickEdit 0]) = js ''Ann Lee''
   \<and> contactInput (run_events (page [] None ann) [Submit, ClickEdit 0]) = js ''1234567890''
   \<and> submitBtn (run_events (page [] None ann) [Submit, ClickEdit 0]) = js ''Update Student''
   \<and> students (run_events (page [] None ann)
         [Submit, ClickEdit 0, Type (js ''Ann Lee'') (js ''123'') (js ''a@b.com'') (js ''555''), Submit])
       = [Some ann]
   \<and> students (run_events (page [] None ann)
         [Submit, ClickEdit 0, Type (js ''Ann Lee'') (js ''123'') (js ''a@b.com'') (js ''555''), Submit,
          Type (js ''Ann Lee'') (js ''123'') (js ''a@b.com'') (js ''9999999999''), Submit])
       = [Some ann2]
   \<and> submitBtn (run_events (page [] None ann)
         [Submit, ClickEdit 0, Type (js ''Ann Lee'') (js ''123'') (js ''a@b.com'') (js ''555''), Submit,
          Type (js ''Ann Lee'') (js ''123'') (js ''a@b.com'') (js ''9999999999''), Submit])
       = js ''Add Student''"
  by (simp add: run_events_def submit_def startEdit_def element_at_def assign_def resetForm_def
      form_reset_def renderTable_def saveStudents_def page_def ann_def ann2_def same_fields_def
      eval_simps)

end
